theory Spec2Isabelle
  imports Main
begin

section \<open>Python string operations used by the agent\<close>

text \<open>
  A Python \<open>str\<close> is modelled as a \<open>string\<close> whose elements are the code points below 256.
  The functions below follow the Python built-ins on that range: \<open>str.isspace\<close>,
  \<open>str.strip\<close>, \<open>str.lstrip(chars)\<close>, \<open>str.lower\<close>, \<open>str.split(sep)\<close> with a
  one-character separator, \<open>str.join\<close>, \<open>str.startswith\<close> and \<open>str(int)\<close>.
\<close>

definition newline :: char where
  "newline = CHR 0x0A"

definition py_isspace :: "char \<Rightarrow> bool" where
  "py_isspace c =
     (let n = (of_char c :: nat)
      in (9 \<le> n \<and> n \<le> 13) \<or> (28 \<le> n \<and> n \<le> 32) \<or> n = 133 \<or> n = 160)"

definition strip :: "string \<Rightarrow> string" where
  "strip s = rev (dropWhile py_isspace (rev (dropWhile py_isspace s)))"

definition lstrip :: "char list \<Rightarrow> string \<Rightarrow> string" where
  "lstrip chars s = dropWhile (\<lambda>c. c \<in> set chars) s"

definition lower_char :: "char \<Rightarrow> char" where
  "lower_char c =
     (let n = (of_char c :: nat)
      in if 65 \<le> n \<and> n \<le> 90 then char_of (n + 32)
         else if 192 \<le> n \<and> n \<le> 222 then (if n = 215 then c else char_of (n + 32))
         else c)"

definition lower :: "string \<Rightarrow> string" where
  "lower s = map lower_char s"

fun split :: "char \<Rightarrow> string \<Rightarrow> string list" where
  "split sep [] = [[]]"
| "split sep (c # cs) =
     (if c = sep then [] # split sep cs
      else (case split sep cs of
              [] \<Rightarrow> [[c]]
            | w # ws \<Rightarrow> (c # w) # ws))"

fun join :: "string \<Rightarrow> string list \<Rightarrow> string" where
  "join sep [] = []"
| "join sep [x] = x"
| "join sep (x # y # ys) = x @ sep @ join sep (y # ys)"

definition startswith :: "string \<Rightarrow> string \<Rightarrow> bool" where
  "startswith s p = (take (length p) s = p)"

definition digit_char :: "nat \<Rightarrow> char" where
  "digit_char d =
     (if d = 0 then CHR ''0'' else if d = 1 then CHR ''1'' else if d = 2 then CHR ''2''
      else if d = 3 then CHR ''3'' else if d = 4 then CHR ''4'' else if d = 5 then CHR ''5''
      else if d = 6 then CHR ''6'' else if d = 7 then CHR ''7'' else if d = 8 then CHR ''8''
      else CHR ''9'')"

fun str_nat :: "nat \<Rightarrow> string" where
  "str_nat n = (if n < 10 then [digit_char n] else str_nat (n div 10) @ [digit_char (n mod 10)])"

definition str_int :: "int \<Rightarrow> string" where
  "str_int i = (if i < 0 then CHR ''-'' # str_nat (nat (- i)) else str_nat (nat i))"


section \<open>State definitions (agent/state.py)\<close>

datatype PostStatus = DRAFT | PENDING_APPROVAL | APPROVED | REJECTED | PUBLISHED | FAILED

datatype Platform = TWITTER | LINKEDIN

text \<open>The \<open>.value\<close> of the two string enumerations.\<close>

fun status_value :: "PostStatus \<Rightarrow> string" where
  "status_value DRAFT = ''draft''"
| "status_value PENDING_APPROVAL = ''pending_approval''"
| "status_value APPROVED = ''approved''"
| "status_value REJECTED = ''rejected''"
| "status_value PUBLISHED = ''published''"
| "status_value FAILED = ''failed''"

fun platform_value :: "Platform \<Rightarrow> string" where
  "platform_value TWITTER = ''twitter''"
| "platform_value LINKEDIN = ''linkedin''"

text \<open>
  \<open>PostContent\<close>: the field \<open>text\<close> is written \<open>text'\<close>; \<open>created_at\<close> is the reading of
  \<open>datetime.utcnow\<close> taken when the object is built, as a number.
\<close>

record PostContent =
  text' :: string
  platform :: Platform
  hashtags :: "string list"
  created_at :: nat

definition formatted_text :: "PostContent \<Rightarrow> string" where
  "formatted_text pc =
     (if hashtags pc \<noteq> []
      then text' pc @ [newline, newline] @ join '' '' (map (\<lambda>tag. CHR ''#'' # tag) (hashtags pc))
      else text' pc)"

definition char_count :: "PostContent \<Rightarrow> int" where
  "char_count pc = int (length (formatted_text pc))"

record HumanFeedback =
  action :: string
  edited_text :: "string option"
  feedback_message :: "string option"

datatype message = AIMessage string | HumanMessage string

record AgentState =
  messages :: "message list"
  topic :: string
  platform :: Platform
  tone :: string
  additional_context :: string
  post_content :: "PostContent option"
  status :: PostStatus
  human_feedback :: "HumanFeedback option"
  generation_attempts :: int
  max_attempts :: int
  published_url :: "string option"
  error_message :: "string option"
  thread_id :: string

text \<open>
  A node returns a partial update, a Python dict with some of the state's keys. A key that is
  missing is \<open>None\<close> here; a key present with the Python value \<open>None\<close> is \<open>Some None\<close>.
  Only the keys that some node returns are listed. The runtime merges an update into the state
  key by key; \<open>messages\<close> is declared with the \<open>add_messages\<close> reducer, which appends.
\<close>

record update =
  u_post_content :: "PostContent option"
  u_status :: "PostStatus option"
  u_human_feedback :: "HumanFeedback option option"
  u_generation_attempts :: "int option"
  u_published_url :: "string option option"
  u_error_message :: "string option option"
  u_messages :: "message list"

definition no_update :: update where
  "no_update = \<lparr>u_post_content = None, u_status = None, u_human_feedback = None,
     u_generation_attempts = None, u_published_url = None, u_error_message = None,
     u_messages = []\<rparr>"

definition merge :: "AgentState \<Rightarrow> update \<Rightarrow> AgentState" where
  "merge s u = s
     \<lparr>messages := messages s @ u_messages u,
      post_content := (case u_post_content u of None \<Rightarrow> post_content s | Some pc \<Rightarrow> Some pc),
      status := (case u_status u of None \<Rightarrow> status s | Some st \<Rightarrow> st),
      human_feedback := (case u_human_feedback u of None \<Rightarrow> human_feedback s | Some fb \<Rightarrow> fb),
      generation_attempts :=
        (case u_generation_attempts u of None \<Rightarrow> generation_attempts s | Some n \<Rightarrow> n),
      published_url := (case u_published_url u of None \<Rightarrow> published_url s | Some x \<Rightarrow> x),
      error_message := (case u_error_message u of None \<Rightarrow> error_message s | Some x \<Rightarrow> x)\<rparr>"

section \<open>Collaborators\<close>

text \<open>
  An exception is a value of type \<open>error\<close>; \<open>str_error\<close> is Python's \<open>str(e)\<close>.
  \<open>ExternalError\<close> stands for whatever a language-model client or a platform client raises.
\<close>

datatype error =
    ValidationError string
  | ValueError string
  | ExternalError string
  | GraphRecursionError string
  | InvalidResumeError string
  | HTTPException nat string

fun str_error :: "error \<Rightarrow> string" where
  "str_error (ValidationError m) = m"
| "str_error (ValueError m) = m"
| "str_error (ExternalError m) = m"
| "str_error (GraphRecursionError m) = m"
| "str_error (InvalidResumeError m) = m"
| "str_error (HTTPException c m) = m"

text \<open>
  The variables handed to the two prompt templates of agent/nodes.py. The language model
  sees nothing else, so it is a function of them: the content of its answer, or an exception.
\<close>

datatype prompt =
    PostPrompt string string string string string
  | HashtagPrompt string string int

text \<open>
  The environment of one invocation of the graph: the language model behind \<open>get_llm\<close>, the
  remote platform call made by a connector (\<open>create_tweet\<close> for Twitter, the \<open>ugcPosts\<close>
  request for LinkedIn; it answers with the identifier of the new post, or raises), and the clock.
\<close>

record env =
  llm :: "prompt \<Rightarrow> error + string"
  platform_api :: "Platform \<Rightarrow> string \<Rightarrow> error + string"
  utcnow :: nat


section \<open>Connectors (connectors/)\<close>

fun platform_name :: "Platform \<Rightarrow> string" where
  "platform_name TWITTER = ''Twitter/X''"
| "platform_name LINKEDIN = ''LinkedIn''"

fun max_length :: "Platform \<Rightarrow> nat" where
  "max_length TWITTER = 280"
| "max_length LINKEDIN = 3000"

definition validate_content :: "Platform \<Rightarrow> string \<Rightarrow> bool \<times> string" where
  "validate_content p content =
     (if length content > max_length p
      then (False, ''Content exceeds '' @ platform_name p @ '' limit of ''
                     @ str_int (int (max_length p)) @ '' characters'')
      else if strip content = [] then (False, ''Content cannot be empty'')
      else (True, []))"

record publish_result =
  pr_success :: bool
  pr_id :: string
  pr_url :: string
  pr_platform :: string

fun post_url :: "Platform \<Rightarrow> string \<Rightarrow> string" where
  "post_url TWITTER post_id = ''https://twitter.com/user/status/'' @ post_id"
| "post_url LINKEDIN post_id = ''https://www.linkedin.com/feed/update/'' @ post_id"

definition connector_publish :: "env \<Rightarrow> Platform \<Rightarrow> string \<Rightarrow> error + publish_result" where
  "connector_publish e p content =
     (case validate_content p content of
        (False, err) \<Rightarrow> Inl (ValueError err)
      | (True, _) \<Rightarrow>
          (case platform_api e p content of
             Inl ex \<Rightarrow> Inl ex
           | Inr post_id \<Rightarrow>
               Inr \<lparr>pr_success = True, pr_id = post_id, pr_url = post_url p post_id,
                    pr_platform = platform_value p\<rparr>))"


section \<open>Nodes (agent/nodes.py)\<close>

fun PLATFORM_PROMPTS :: "Platform \<Rightarrow> string" where
  "PLATFORM_PROMPTS TWITTER =
     ''You are an expert social media copywriter for Twitter/X.\<newline>Create engaging tweets that:\<newline>- Are concise (max 280 characters including hashtags)\<newline>- Use attention-grabbing hooks\<newline>- Include relevant hashtags (2-4 max)\<newline>- Drive engagement through questions or calls-to-action\<newline>\<newline>Character limit is STRICT: 280 characters maximum.''"
| "PLATFORM_PROMPTS LINKEDIN =
     ''You are an expert social media copywriter for LinkedIn.\<newline>Create professional posts that:\<newline>- Are informative and add value\<newline>- Use a professional yet personable tone\<newline>- Include relevant hashtags (3-5)\<newline>- Encourage professional discussion\<newline>- Can be up to 3000 characters but aim for 150-300 words for best engagement''"

definition generate_post :: "env \<Rightarrow> AgentState \<Rightarrow> error + update" where
  "generate_post e s =
     (let platform_prompt = PLATFORM_PROMPTS (AgentState.platform s);
          additional =
            (if additional_context s \<noteq> []
             then ''Additional requirements: '' @ additional_context s else [])
      in case llm e (PostPrompt platform_prompt (platform_value (AgentState.platform s))
                       (topic s) (tone s) additional) of
           Inl ex \<Rightarrow> Inl ex
         | Inr content \<Rightarrow>
             (let post_text = strip content;
                  num_hashtags = (if AgentState.platform s = TWITTER then 3 else 5 :: nat)
              in case llm e (HashtagPrompt (platform_value (AgentState.platform s))
                               post_text (int num_hashtags)) of
                   Inl ex \<Rightarrow> Inl ex
                 | Inr hashtag_content \<Rightarrow>
                     (let tags = map (\<lambda>tag. lstrip ''#'' (strip tag))
                                   (filter (\<lambda>tag. strip tag \<noteq> [])
                                      (split newline (strip hashtag_content)));
                          pc = \<lparr>text' = post_text, platform = AgentState.platform s,
                                 hashtags = take num_hashtags tags, created_at = utcnow e\<rparr>
                      in Inr (no_update
                           \<lparr>u_post_content := Some pc,
                            u_status := Some PENDING_APPROVAL,
                            u_generation_attempts := Some (generation_attempts s + 1),
                            u_messages :=
                              [AIMessage (''Generated '' @ platform_value (AgentState.platform s)
                                 @ '' post:'' @ [newline, newline] @ formatted_text pc)]\<rparr>))))"

text \<open>
  The value a caller resumes with: a string, or a dict from keys to values that are a string
  or Python's \<open>None\<close> (the two callers in the repository build such dicts).
\<close>

datatype resume_value = Str string | Dict "string \<Rightarrow> string option option"

text \<open>
  \<open>HumanFeedback(**kwargs)\<close>: the model class of agent/state.py validates its fields when it
  is built. \<open>action\<close> is required and must be one of the three literals, the two other fields
  default to \<open>None\<close>, and keys the class does not declare are ignored. The text of the
  validation error is abbreviated.
\<close>

definition HumanFeedback_init :: "(string \<Rightarrow> string option option) \<Rightarrow> error + HumanFeedback" where
  "HumanFeedback_init kwargs =
     (case kwargs ''action'' of
        Some (Some a) \<Rightarrow>
          if a = ''approve'' \<or> a = ''reject'' \<or> a = ''edit''
          then Inr \<lparr>action = a,
                    edited_text = (case kwargs ''edited_text'' of None \<Rightarrow> None | Some v \<Rightarrow> v),
                    feedback_message =
                      (case kwargs ''feedback_message'' of None \<Rightarrow> None | Some v \<Rightarrow> v)\<rparr>
          else Inl (ValidationError ''action: input should be approve, reject or edit'')
      | _ \<Rightarrow> Inl (ValidationError ''action: input should be approve, reject or edit''))"

definition parse_human_response :: "resume_value \<Rightarrow> error + HumanFeedback" where
  "parse_human_response response =
     (case response of
        Dict d \<Rightarrow> HumanFeedback_init d
      | Str r \<Rightarrow>
          (let response_str = lower (strip r)
           in if response_str = ''approve''
              then Inr \<lparr>action = ''approve'', edited_text = None, feedback_message = None\<rparr>
              else if response_str = ''reject''
              then Inr \<lparr>action = ''reject'', edited_text = None, feedback_message = None\<rparr>
              else if startswith response_str ''edit:''
              then Inr \<lparr>action = ''edit'', edited_text = Some (strip (drop 5 response_str)),
                        feedback_message = None\<rparr>
              else Inr \<lparr>action = ''approve'', edited_text = None,
                        feedback_message = Some (''Unclear response: '' @ r)\<rparr>))"

record approval_request =
  ar_type :: string
  ar_post_text :: string
  ar_platform :: string
  ar_char_count :: int
  ar_generation_attempt :: int
  ar_instructions :: string

text \<open>
  What a node hands back to the runtime: a partial update, an interrupt carrying the payload
  for the caller, or an exception.
\<close>

datatype node_result = Update update | Interrupt approval_request | Raise error

text \<open>
  \<open>request_approval\<close> calls \<open>interrupt\<close>. On the first pass there is no resume value and the
  node suspends; when the thread is resumed the node runs again from its first line and
  \<open>interrupt\<close> returns the resume value.
\<close>

definition request_approval :: "resume_value option \<Rightarrow> AgentState \<Rightarrow> node_result" where
  "request_approval resume s =
     (case post_content s of
        None \<Rightarrow> Update (no_update\<lparr>u_error_message := Some (Some ''No post content to approve'')\<rparr>)
      | Some pc \<Rightarrow>
          (case resume of
             None \<Rightarrow>
               Interrupt
                 \<lparr>ar_type = ''approval_request'',
                  ar_post_text = formatted_text pc,
                  ar_platform = platform_value (AgentState.platform s),
                  ar_char_count = char_count pc,
                  ar_generation_attempt = generation_attempts s,
                  ar_instructions =
                    ''Please review this post and respond with one of:\<newline>''
                    @ ''- 'approve' to publish as-is\<newline>''
                    @ ''- 'reject' to regenerate\<newline>''
                    @ ''- 'edit: <your edited text>' to publish with modifications''\<rparr>
           | Some human_response \<Rightarrow>
               (case parse_human_response human_response of
                  Inl ex \<Rightarrow> Raise ex
                | Inr feedback \<Rightarrow>
                    Update (no_update
                      \<lparr>u_human_feedback := Some (Some feedback),
                       u_messages := [HumanMessage (''Human feedback: '' @ action feedback)]\<rparr>))))"

definition process_feedback :: "env \<Rightarrow> AgentState \<Rightarrow> update" where
  "process_feedback e s =
     (case human_feedback s of
        None \<Rightarrow> no_update\<lparr>u_status := Some PENDING_APPROVAL\<rparr>
      | Some feedback \<Rightarrow>
          if action feedback = ''approve'' then no_update\<lparr>u_status := Some APPROVED\<rparr>
          else if action feedback = ''reject'' then
            (if generation_attempts s \<ge> max_attempts s
             then no_update
                    \<lparr>u_status := Some FAILED,
                     u_error_message :=
                       Some (Some (''Max generation attempts ('' @ str_int (max_attempts s)
                                     @ '') reached''))\<rparr>
             else no_update\<lparr>u_status := Some DRAFT, u_human_feedback := Some None\<rparr>)
          else if action feedback = ''edit'' then
            (case (post_content s, edited_text feedback) of
               (Some pc, Some txt) \<Rightarrow>
                 if txt \<noteq> []
                 then no_update
                        \<lparr>u_post_content :=
                           Some \<lparr>text' = txt, platform = AgentState.platform s,
                                 hashtags = hashtags pc, created_at = utcnow e\<rparr>,
                         u_status := Some APPROVED\<rparr>
                 else no_update\<lparr>u_status := Some APPROVED\<rparr>
             | _ \<Rightarrow> no_update\<lparr>u_status := Some APPROVED\<rparr>)
          else no_update\<lparr>u_status := Some PENDING_APPROVAL\<rparr>)"

text \<open>
  \<open>publish_post\<close> returns its update together with the calls it made to the connector's
  \<open>publish\<close>, each as the platform and the content passed. The two marks that open the
  messages are outside the character range and are written as their three UTF-8 bytes.
\<close>

definition check_mark :: string where
  "check_mark = [CHR 0xE2, CHR 0x9C, CHR 0x85]"

definition cross_mark :: string where
  "cross_mark = [CHR 0xE2, CHR 0x9D, CHR 0x8C]"

definition publish_post :: "env \<Rightarrow> AgentState \<Rightarrow> update \<times> (Platform \<times> string) list" where
  "publish_post e s =
     (case post_content s of
        None \<Rightarrow>
          (no_update\<lparr>u_status := Some FAILED,
                      u_error_message := Some (Some ''No post content to publish'')\<rparr>, [])
      | Some pc \<Rightarrow>
          (case connector_publish e (AgentState.platform s) (formatted_text pc) of
             Inr result \<Rightarrow>
               (no_update
                  \<lparr>u_status := Some PUBLISHED,
                   u_published_url := Some (Some (pr_url result)),
                   u_messages :=
                     [AIMessage (check_mark @ '' Successfully published to ''
                        @ platform_value (AgentState.platform s) @ ''!'' @ [newline] @ ''URL: ''
                        @ pr_url result)]\<rparr>,
                [(AgentState.platform s, formatted_text pc)])
           | Inl ex \<Rightarrow>
               (no_update
                  \<lparr>u_status := Some FAILED,
                   u_error_message := Some (Some (str_error ex)),
                   u_messages := [AIMessage (cross_mark @ '' Failed to publish: '' @ str_error ex)]\<rparr>,
                [(AgentState.platform s, formatted_text pc)])))"

definition should_regenerate :: "AgentState \<Rightarrow> string" where
  "should_regenerate s =
     (if status s = APPROVED then ''publish''
      else if status s = DRAFT then ''generate''
      else ''end'')"

section \<open>Workflow graph (agent/graph.py)\<close>

datatype node = N_generate | N_request_approval | N_process_feedback | N_publish

datatype target = Node node | END

definition entry_point :: node where
  "entry_point = N_generate"

text \<open>The static edges of \<open>create_graph\<close>, and the path map of its conditional edge.\<close>

fun edges :: "node \<Rightarrow> target option" where
  "edges N_generate = Some (Node N_request_approval)"
| "edges N_request_approval = Some (Node N_process_feedback)"
| "edges N_publish = Some END"
| "edges N_process_feedback = None"

definition path_map :: "string \<Rightarrow> target option" where
  "path_map k =
     (if k = ''publish'' then Some (Node N_publish)
      else if k = ''generate'' then Some (Node N_generate)
      else if k = ''end'' then Some END
      else None)"

definition next_target :: "node \<Rightarrow> AgentState \<Rightarrow> target option" where
  "next_target n s =
     (case edges n of
        Some t \<Rightarrow> Some t
      | None \<Rightarrow> if n = N_process_feedback then path_map (should_regenerate s) else None)"

definition run_node :: "env \<Rightarrow> node \<Rightarrow> resume_value option \<Rightarrow> AgentState \<Rightarrow> node_result" where
  "run_node e n resume s =
     (case n of
        N_generate \<Rightarrow> (case generate_post e s of Inl ex \<Rightarrow> Raise ex | Inr u \<Rightarrow> Update u)
      | N_request_approval \<Rightarrow> request_approval resume s
      | N_process_feedback \<Rightarrow> Update (process_feedback e s)
      | N_publish \<Rightarrow> Update (fst (publish_post e s)))"

text \<open>
  Modelled from the spec: the runtime that executes the compiled graph is a library outside
  the repository. Following the execution algorithm of the specification, it invokes the
  current node, merges the returned update into the state, persists the result, and moves to
  the next node along a static edge or the branch function; an interrupt halts the loop
  without advancing, and the end marker finishes it. A run is bounded by the runtime's step
  limit. The record \<open>run\<close> holds how the loop stopped, the last persisted state, the
  cursor, and the nodes that completed, in order.
\<close>

datatype outcome = Finished | Suspended approval_request | Failed error

datatype cursor = At node | Awaiting | Done

record run =
  r_outcome :: outcome
  r_state :: AgentState
  r_cursor :: cursor
  r_trace :: "node list"

definition recursion_limit :: nat where
  "recursion_limit = 25"

fun drive :: "env \<Rightarrow> nat \<Rightarrow> node \<Rightarrow> resume_value option \<Rightarrow> AgentState \<Rightarrow> run" where
  "drive e 0 n resume s =
     \<lparr>r_outcome = Failed (GraphRecursionError ''Recursion limit reached''),
      r_state = s, r_cursor = At n, r_trace = []\<rparr>"
| "drive e (Suc k) n resume s =
     (case run_node e n resume s of
        Raise ex \<Rightarrow> \<lparr>r_outcome = Failed ex, r_state = s, r_cursor = At n, r_trace = []\<rparr>
      | Interrupt payload \<Rightarrow>
          \<lparr>r_outcome = Suspended payload, r_state = s, r_cursor = Awaiting, r_trace = []\<rparr>
      | Update u \<Rightarrow>
          (let s' = merge s u
           in case next_target n s' of
                None \<Rightarrow>
                  \<lparr>r_outcome = Failed (ValueError ''Branch not in path map''),
                   r_state = s', r_cursor = At n, r_trace = [n]\<rparr>
              | Some END \<Rightarrow>
                  \<lparr>r_outcome = Finished, r_state = s', r_cursor = Done, r_trace = [n]\<rparr>
              | Some (Node n') \<Rightarrow>
                  (let r = drive e k n' None s' in r\<lparr>r_trace := n # r_trace r\<rparr>)))"

text \<open>
  Modelled from the spec: the two ways into the runtime, which is a library outside the
  repository. Starting a thread runs the graph from its entry point. Resuming hands the resume
  value to the suspended approval node; resuming a thread that is not suspended there fails
  with \<open>InvalidResumeError\<close>.
\<close>

definition graph_invoke :: "env \<Rightarrow> AgentState \<Rightarrow> run" where
  "graph_invoke e s = drive e recursion_limit entry_point None s"

definition graph_resume :: "env \<Rightarrow> AgentState \<times> cursor \<Rightarrow> resume_value \<Rightarrow> error + run" where
  "graph_resume e ck v =
     (if snd ck = Awaiting
      then Inr (drive e recursion_limit N_request_approval (Some v) (fst ck))
      else Inl (InvalidResumeError ''Thread is not awaiting approval''))"

text \<open>
  A whole thread: one start, then one resume per approval round while the thread is
  suspended. Every invocation has its own environment. The trace accumulates over the rounds.
\<close>

fun resume_all :: "run \<Rightarrow> (env \<times> resume_value) list \<Rightarrow> run" where
  "resume_all r [] = r"
| "resume_all r ((e, v) # rounds) =
     (case graph_resume e (r_state r, r_cursor r) v of
        Inl ex \<Rightarrow> r
      | Inr r' \<Rightarrow> resume_all (r'\<lparr>r_trace := r_trace r @ r_trace r'\<rparr>) rounds)"

definition run_thread :: "env \<Rightarrow> AgentState \<Rightarrow> (env \<times> resume_value) list \<Rightarrow> run" where
  "run_thread e0 s0 rounds = resume_all (graph_invoke e0 s0) rounds"


text \<open>
  Any sequence of node executions, whatever the order: a node that returns an update has it
  merged and is recorded as completed, a node that interrupts or raises leaves the state as
  it was. The result is the final state and the completed nodes, in order.
\<close>

fun exec_nodes ::
  "AgentState \<Rightarrow> (env \<times> node \<times> resume_value option) list \<Rightarrow> AgentState \<times> node list" where
  "exec_nodes s [] = (s, [])"
| "exec_nodes s ((e, n, resume) # xs) =
     (case run_node e n resume s of
        Update u \<Rightarrow> (case exec_nodes (merge s u) xs of (s', ns) \<Rightarrow> (s', n # ns))
      | Interrupt payload \<Rightarrow> exec_nodes s xs
      | Raise ex \<Rightarrow> exec_nodes s xs)"


section \<open>HTTP handlers (web/api.py)\<close>

record GeneratePostRequest =
  g_topic :: string
  g_platform :: Platform
  g_tone :: string
  g_additional_context :: string

record ApprovalRequest =
  a_action :: string
  a_edited_text :: "string option"
  a_feedback_message :: "string option"

record PostResponse =
  p_thread_id :: string
  p_status :: string
  p_post_text :: "string option"
  p_platform :: string
  p_char_count :: "int option"
  p_published_url :: "string option"
  p_error_message :: "string option"

text \<open>
  The module keeps two stores: the dict \<open>pending_threads\<close> and the checkpointer handed to the
  compiled graph, which holds for each thread the last persisted state and the cursor.
\<close>

record pending_entry =
  pe_topic :: string
  pe_platform :: string
  pe_result :: AgentState

record server =
  pending_threads :: "string \<Rightarrow> pending_entry option"
  checkpointer :: "string \<Rightarrow> (AgentState \<times> cursor) option"

definition empty_server :: server where
  "empty_server = \<lparr>pending_threads = (\<lambda>_. None), checkpointer = (\<lambda>_. None)\<rparr>"

text \<open>\<open>AgentState(topic=..., platform=..., ...)\<close> with the defaults of agent/state.py.\<close>

definition AgentState_init ::
  "string \<Rightarrow> Platform \<Rightarrow> string \<Rightarrow> string \<Rightarrow> string \<Rightarrow> AgentState" where
  "AgentState_init tp pf tn ctx tid =
     \<lparr>messages = [], topic = tp, platform = pf, tone = tn, additional_context = ctx,
      post_content = None, status = DRAFT, human_feedback = None, generation_attempts = 0,
      max_attempts = 3, published_url = None, error_message = None, thread_id = tid\<rparr>"

text \<open>
  Modelled from the spec: the calls \<open>compiled_graph.ainvoke(input, config)\<close> and
  \<open>compiled_graph.ainvoke(Command(resume=...), config)\<close> into the runtime library, with
  the checkpoint store of the specification. The run is made on the thread's checkpoint and
  the checkpoint is replaced by where the run stopped; an exception of the run reaches the
  handler; a thread without a checkpoint cannot be resumed (\<open>InvalidResumeError\<close>).
\<close>

definition ainvoke_input :: "env \<Rightarrow> string \<Rightarrow> AgentState \<Rightarrow> server \<Rightarrow> (error + AgentState) \<times> server" where
  "ainvoke_input e tid input srv =
     (let r = graph_invoke e input;
          srv' = srv\<lparr>checkpointer := (checkpointer srv)(tid := Some (r_state r, r_cursor r))\<rparr>
      in case r_outcome r of
           Failed ex \<Rightarrow> (Inl ex, srv')
         | Suspended payload \<Rightarrow> (Inr (r_state r), srv')
         | Finished \<Rightarrow> (Inr (r_state r), srv'))"

definition ainvoke_resume :: "env \<Rightarrow> string \<Rightarrow> resume_value \<Rightarrow> server \<Rightarrow> (error + AgentState) \<times> server" where
  "ainvoke_resume e tid v srv =
     (case checkpointer srv tid of
        None \<Rightarrow> (Inl (InvalidResumeError ''Thread has no checkpoint''), srv)
      | Some ck \<Rightarrow>
          (case graph_resume e ck v of
             Inl ex \<Rightarrow> (Inl ex, srv)
           | Inr r \<Rightarrow>
               (let srv' = srv\<lparr>checkpointer :=
                                  (checkpointer srv)(tid := Some (r_state r, r_cursor r))\<rparr>
                in case r_outcome r of
                     Failed ex \<Rightarrow> (Inl ex, srv')
                   | Suspended payload \<Rightarrow> (Inr (r_state r), srv')
                   | Finished \<Rightarrow> (Inr (r_state r), srv'))))"

text \<open>
  The handler of \<open>POST /posts/generate\<close>, as its effect on the two stores; \<open>tid\<close> is the
  identifier drawn by \<open>uuid4\<close>. The body of its HTTP response is left out.
\<close>

definition api_generate_post :: "env \<Rightarrow> string \<Rightarrow> GeneratePostRequest \<Rightarrow> server \<Rightarrow> server" where
  "api_generate_post e tid request srv =
     (let initial_state = AgentState_init (g_topic request) (g_platform request) (g_tone request)
                            (g_additional_context request) tid
      in case ainvoke_input e tid initial_state srv of
           (Inl ex, srv') \<Rightarrow> srv'
         | (Inr result, srv') \<Rightarrow>
             srv'\<lparr>pending_threads := (pending_threads srv')
                     (tid := Some \<lparr>pe_topic = g_topic request,
                                   pe_platform = platform_value (g_platform request),
                                   pe_result = result\<rparr>)\<rparr>)"

text \<open>The handler of \<open>POST /posts/{thread_id}/approve\<close>: its response and the new stores.\<close>

definition approve_post ::
  "env \<Rightarrow> string \<Rightarrow> ApprovalRequest \<Rightarrow> server \<Rightarrow> (error + PostResponse) \<times> server" where
  "approve_post e tid request srv =
     (case pending_threads srv tid of
        None \<Rightarrow> (Inl (HTTPException 404 ''Thread not found''), srv)
      | Some entry \<Rightarrow>
          (let feedback = Dict ((\<lambda>_. None)
                 (''action'' := Some (Some (a_action request)),
                  ''edited_text'' := Some (a_edited_text request),
                  ''feedback_message'' := Some (a_feedback_message request)))
           in case ainvoke_resume e tid feedback srv of
                (Inl ex, srv') \<Rightarrow> (Inl (HTTPException 500 (str_error ex)), srv')
              | (Inr result, srv') \<Rightarrow>
                  (let pending =
                         (if status result = PUBLISHED \<or> status result = FAILED
                          then (pending_threads srv')(tid := None)
                          else (pending_threads srv')(tid := Some (entry\<lparr>pe_result := result\<rparr>)))
                   in (Inr \<lparr>p_thread_id = tid,
                            p_status = status_value (status result),
                            p_post_text = map_option formatted_text (post_content result),
                            p_platform = (case pending tid of
                                            None \<Rightarrow> ''twitter''
                                          | Some en \<Rightarrow> pe_platform en),
                            p_char_count = None,
                            p_published_url = published_url result,
                            p_error_message = error_message result\<rparr>,
                       srv'\<lparr>pending_threads := pending\<rparr>))))"

text \<open>The server states that calls of the two handlers can reach from the empty stores.\<close>

datatype api_call =
    GeneratePost env string GeneratePostRequest
  | ApprovePost env string ApprovalRequest

fun api_step :: "server \<Rightarrow> api_call \<Rightarrow> server" where
  "api_step srv (GeneratePost e tid request) = api_generate_post e tid request srv"
| "api_step srv (ApprovePost e tid request) = snd (approve_post e tid request srv)"

definition api_run :: "api_call list \<Rightarrow> server" where
  "api_run calls = foldl api_step empty_server calls"


section \<open>The specification's wording\<close>

text \<open>
  The rendered text as the specification words it: the body, a blank line, and the hashtags,
  each prefixed with \<open>#\<close> and joined by single spaces.
\<close>

definition rendered_text_spec :: "PostContent \<Rightarrow> string" where
  "rendered_text_spec pc =
     text' pc @ [newline, newline] @ join '' '' (map (\<lambda>tag. CHR ''#'' # tag) (hashtags pc))"

text \<open>The platform policy for hashtags: three for Twitter, five for LinkedIn.\<close>

fun hashtag_policy :: "Platform \<Rightarrow> nat" where
  "hashtag_policy TWITTER = 3"
| "hashtag_policy LINKEDIN = 5"

definition hashtag_bound :: "AgentState \<Rightarrow> bool" where
  "hashtag_bound s =
     (case post_content s of
        None \<Rightarrow> True
      | Some pc \<Rightarrow> PostContent.platform pc = AgentState.platform s
                   \<and> length (hashtags pc) \<le> hashtag_policy (PostContent.platform pc))"

text \<open>
  The recognized string forms of a resume value: \<open>approve\<close>, \<open>reject\<close>, or a string that
  begins with \<open>edit:\<close>.
\<close>

definition recognized_form :: "string \<Rightarrow> bool" where
  "recognized_form r = (r = ''approve'' \<or> r = ''reject'' \<or> startswith r ''edit:'')"

text \<open>Normalization fails open: the action is approve and a non-empty message is attached.\<close>

definition fails_open :: "error + HumanFeedback \<Rightarrow> bool" where
  "fails_open x =
     (case x of
        Inl ex \<Rightarrow> False
      | Inr fb \<Rightarrow> action fb = ''approve''
                  \<and> (case feedback_message fb of None \<Rightarrow> False | Some m \<Rightarrow> m \<noteq> []))"

text \<open>The language model answers both prompts of an invocation.\<close>

definition llm_answers :: "env \<Rightarrow> bool" where
  "llm_answers e = (\<forall>p. \<exists>content. llm e p = Inr content)"

definition is_reject :: "resume_value \<Rightarrow> bool" where
  "is_reject v =
     (case parse_human_response v of Inl ex \<Rightarrow> False | Inr fb \<Rightarrow> action fb = ''reject'')"

text \<open>The status is one of the two terminal values.\<close>

definition terminal :: "PostStatus \<Rightarrow> bool" where
  "terminal st = (st = PUBLISHED \<or> st = FAILED)"

text \<open>
  A thread is unknown when the checkpointer holds nothing for it, and terminal when its
  persisted status is terminal. The stores are consistent when every thread listed in
  \<open>pending_threads\<close> has a checkpoint whose status is not terminal.
\<close>

definition thread_unknown :: "server \<Rightarrow> string \<Rightarrow> bool" where
  "thread_unknown srv tid = (case checkpointer srv tid of None \<Rightarrow> True | Some ck \<Rightarrow> False)"

definition thread_terminal :: "server \<Rightarrow> string \<Rightarrow> bool" where
  "thread_terminal srv tid =
     (case checkpointer srv tid of None \<Rightarrow> False | Some ck \<Rightarrow> terminal (status (fst ck)))"

definition pending_live :: "server \<Rightarrow> bool" where
  "pending_live srv =
     (\<forall>tid. case pending_threads srv tid of
              None \<Rightarrow> True
            | Some en \<Rightarrow> \<not> thread_unknown srv tid \<and> \<not> thread_terminal srv tid)"


section \<open>Example inputs\<close>

definition draft0 :: PostContent where
  "draft0 = \<lparr>text' = ''hi'', platform = TWITTER, hashtags = [], created_at = 0\<rparr>"

definition draft2 :: PostContent where
  "draft2 = \<lparr>text' = ''hi'', platform = TWITTER, hashtags = [''a'', ''bc''], created_at = 0\<rparr>"

text \<open>
  A language model that answers with a post and four hashtags, and a platform that accepts
  the post; a platform that is down.
\<close>

definition env_ok :: env where
  "env_ok =
     \<lparr>llm = (\<lambda>p. case p of
                PostPrompt pp pf tp tn ctx \<Rightarrow> Inr '' Hello World ''
              | HashtagPrompt pf txt k \<Rightarrow> Inr ''#ai\<newline>safety\<newline>\<newline> ml \<newline>tech''),
      platform_api = (\<lambda>p content. Inr ''42''),
      utcnow = 7\<rparr>"

definition env_down :: env where
  "env_down = env_ok\<lparr>platform_api := (\<lambda>p content. Inl (ExternalError ''503 Service Unavailable''))\<rparr>"

definition state0 :: AgentState where
  "state0 = AgentState_init ''AI safety'' TWITTER ''casual'' [] ''t1''"

definition state_pending :: AgentState where
  "state_pending = state0\<lparr>post_content := Some draft2, status := PENDING_APPROVAL,
                           generation_attempts := 1\<rparr>"

definition request0 :: GeneratePostRequest where
  "request0 = \<lparr>g_topic = ''AI safety'', g_platform = TWITTER, g_tone = ''casual'',
               g_additional_context = []\<rparr>"

definition approve0 :: ApprovalRequest where
  "approve0 = \<lparr>a_action = ''approve'', a_edited_text = None, a_feedback_message = None\<rparr>"

text \<open>The draft and the update that the draft node produces from \<open>state0\<close> with \<open>env_ok\<close>.\<close>

definition draft_ok :: PostContent where
  "draft_ok = \<lparr>text' = ''Hello World'', platform = TWITTER,
               hashtags = [''ai'', ''safety'', ''ml''], created_at = 7\<rparr>"

definition update_ok :: update where
  "update_ok = no_update
     \<lparr>u_post_content := Some draft_ok,
      u_status := Some PENDING_APPROVAL,
      u_generation_attempts := Some 1,
      u_messages := [AIMessage (''Generated twitter post:'' @ [newline, newline]
                       @ ''Hello World'' @ [newline, newline] @ ''#ai #safety #ml'')]\<rparr>"

definition steps0 :: "(env \<times> node \<times> resume_value option) list" where
  "steps0 = [(env_ok, N_generate, None),
             (env_ok, N_request_approval, Some (Str ''reject'')),
             (env_ok, N_process_feedback, None),
             (env_ok, N_generate, None),
             (env_ok, N_request_approval, Some (Str ''edit: Shorter'')),
             (env_ok, N_process_feedback, None)]"

definition reject3 :: "(env \<times> resume_value) list" where
  "reject3 = [(env_ok, Str ''reject''), (env_ok, Str '' Reject ''),
              (env_ok, Dict ((\<lambda>_. None)(''action'' := Some (Some ''reject''))))]"

definition calls0 :: "api_call list" where
  "calls0 = [GeneratePost env_ok ''t1'' request0, ApprovePost env_ok ''t1'' approve0]"

definition state_edit :: AgentState where
  "state_edit = state_pending\<lparr>human_feedback :=
     Some \<lparr>action = ''edit'', edited_text = Some ''New copy'', feedback_message = None\<rparr>\<rparr>"

section \<open>Properties of the nodes\<close>

lemma merge_fields:
  "status (merge s u) = (case u_status u of None \<Rightarrow> status s | Some st \<Rightarrow> st)"
  "generation_attempts (merge s u)
     = (case u_generation_attempts u of None \<Rightarrow> generation_attempts s | Some k \<Rightarrow> k)"
  "post_content (merge s u)
     = (case u_post_content u of None \<Rightarrow> post_content s | Some pc \<Rightarrow> Some pc)"
  "human_feedback (merge s u)
     = (case u_human_feedback u of None \<Rightarrow> human_feedback s | Some fb \<Rightarrow> fb)"
  "error_message (merge s u)
     = (case u_error_message u of None \<Rightarrow> error_message s | Some m \<Rightarrow> m)"
  "published_url (merge s u)
     = (case u_published_url u of None \<Rightarrow> published_url s | Some m \<Rightarrow> m)"
  "max_attempts (merge s u) = max_attempts s"
  "AgentState.platform (merge s u) = AgentState.platform s"
  by (simp_all add: merge_def)

lemma generate_post_update:
  assumes "generate_post e s = Inr u"
  shows "\<exists>pc. u_post_content u = Some pc
           \<and> PostContent.platform pc = AgentState.platform s
           \<and> length (hashtags pc) \<le> hashtag_policy (AgentState.platform s)
           \<and> u_status u = Some PENDING_APPROVAL
           \<and> u_human_feedback u = None
           \<and> u_error_message u = None
           \<and> u_generation_attempts u = Some (generation_attempts s + 1)"
  using assms
  by (cases "AgentState.platform s")
     (auto simp add: generate_post_def Let_def no_update_def split: sum.splits)

lemma generate_post_answers:
  assumes "llm_answers e"
  shows "\<exists>u. generate_post e s = Inr u"
proof -
  from assms obtain c1 where c1: "llm e (PostPrompt (PLATFORM_PROMPTS (AgentState.platform s))
      (platform_value (AgentState.platform s)) (topic s) (tone s)
      (if additional_context s \<noteq> [] then ''Additional requirements: '' @ additional_context s
       else [])) = Inr c1"
    unfolding llm_answers_def by blast
  from assms obtain c2 where c2: "llm e (HashtagPrompt (platform_value (AgentState.platform s))
      (strip c1) (int (if AgentState.platform s = TWITTER then 3 else 5))) = Inr c2"
    unfolding llm_answers_def by blast
  from c1 c2 show ?thesis by (simp add: generate_post_def Let_def)
qed

lemma request_approval_update:
  assumes "request_approval resume s = Update u"
  shows "u_post_content u = None \<and> u_generation_attempts u = None \<and> u_status u = None"
  using assms
  by (auto simp add: request_approval_def no_update_def split: option.splits sum.splits)

lemma process_feedback_update:
  "u_generation_attempts (process_feedback e s) = None
   \<and> (case u_post_content (process_feedback e s) of
         None \<Rightarrow> True
       | Some pc' \<Rightarrow> PostContent.platform pc' = AgentState.platform s
                     \<and> (\<exists>pc. post_content s = Some pc \<and> hashtags pc' = hashtags pc))"
  by (auto simp add: process_feedback_def no_update_def split: option.splits)

lemma publish_post_update:
  "u_generation_attempts (fst (publish_post e s)) = None
   \<and> u_post_content (fst (publish_post e s)) = None"
  by (auto simp add: publish_post_def no_update_def split: option.splits sum.splits)

lemma run_node_attempts:
  assumes "run_node e n resume s = Update u"
  shows "u_generation_attempts u = (if n = N_generate then Some (generation_attempts s + 1) else None)"
proof (cases n)
  case N_generate
  with assms obtain u' where "generate_post e s = Inr u'" and "u = u'"
    by (auto simp add: run_node_def split: sum.splits)
  with generate_post_update [of e s u] N_generate show ?thesis by auto
next
  case N_request_approval
  with assms request_approval_update [of resume s u] show ?thesis by (simp add: run_node_def)
next
  case N_process_feedback
  with assms process_feedback_update [of e s] show ?thesis by (auto simp add: run_node_def)
next
  case N_publish
  with assms publish_post_update [of e s] show ?thesis by (auto simp add: run_node_def)
qed

lemma run_node_merge_attempts:
  assumes "run_node e n resume s = Update u"
  shows "generation_attempts (merge s u)
         = generation_attempts s + int (count_list [n] N_generate)"
  using run_node_attempts [OF assms] by (simp add: merge_fields)

lemma exec_nodes_attempts:
  "generation_attempts (fst (exec_nodes s xs))
   = generation_attempts s + int (count_list (snd (exec_nodes s xs)) N_generate)"
proof (induction xs arbitrary: s)
  case Nil
  show ?case by simp
next
  case (Cons x xs)
  obtain e n resume where x: "x = (e, n, resume)" by (cases x)
  show ?case
  proof (cases "run_node e n resume s")
    case (Update u)
    from Cons.IH [of "merge s u"] run_node_merge_attempts [OF Update]
    show ?thesis using x Update by (auto split: prod.splits)
  next
    case (Interrupt payload)
    with Cons.IH [of s] x show ?thesis by simp
  next
    case (Raise ex)
    with Cons.IH [of s] x show ?thesis by simp
  qed
qed

lemma drive_attempts:
  "generation_attempts (r_state (drive e k n resume s))
   = generation_attempts s + int (count_list (r_trace (drive e k n resume s)) N_generate)"
proof (induction k arbitrary: n resume s)
  case 0
  show ?case by simp
next
  case (Suc k)
  show ?case
  proof (cases "run_node e n resume s")
    case (Update u)
    note m = run_node_merge_attempts [OF Update]
    show ?thesis
    proof (cases "next_target n (merge s u)")
      case None
      with Update m show ?thesis by simp
    next
      case (Some t)
      show ?thesis
      proof (cases t)
        case END
        with Some Update m show ?thesis by simp
      next
        case (Node n')
        with Some Update m Suc.IH [of n' None "merge s u"] show ?thesis
          by (simp add: Let_def)
      qed
    qed
  next
    case (Interrupt payload)
    then show ?thesis by simp
  next
    case (Raise ex)
    then show ?thesis by simp
  qed
qed

section \<open>Properties of the graph driver\<close>

lemma drive_update_node:
  assumes "run_node e n resume s = Update u" and "next_target n (merge s u) = Some (Node n')"
    and "drive e k n' None (merge s u) = r"
  shows "drive e (Suc k) n resume s = r\<lparr>r_trace := n # r_trace r\<rparr>"
  using assms by (simp add: Let_def)

lemma drive_update_end:
  assumes "run_node e n resume s = Update u" and "next_target n (merge s u) = Some END"
  shows "drive e (Suc k) n resume s
         = \<lparr>r_outcome = Finished, r_state = merge s u, r_cursor = Done, r_trace = [n]\<rparr>"
  using assms by (simp add: Let_def)

lemma next_target_static:
  "next_target N_generate s = Some (Node N_request_approval)"
  "next_target N_request_approval s = Some (Node N_process_feedback)"
  "next_target N_publish s = Some END"
  "next_target N_process_feedback s = path_map (should_regenerate s)"
  by (simp_all add: next_target_def)

lemma run_node_process_feedback:
  "run_node e N_process_feedback resume s = Update (process_feedback e s)"
  by (simp add: run_node_def)

lemma request_approval_interrupts:
  assumes "post_content s = Some pc"
  shows "\<exists>payload. drive e (Suc k) N_request_approval None s
           = \<lparr>r_outcome = Suspended payload, r_state = s, r_cursor = Awaiting, r_trace = []\<rparr>"
  using assms by (simp add: run_node_def request_approval_def)

lemma graph_invoke_suspends:
  assumes "llm_answers e"
  shows "\<exists>payload u. generate_post e s = Inr u
           \<and> graph_invoke e s = \<lparr>r_outcome = Suspended payload, r_state = merge s u,
                                  r_cursor = Awaiting, r_trace = [N_generate]\<rparr>"
proof -
  from generate_post_answers [OF assms] obtain u where u: "generate_post e s = Inr u" by blast
  from generate_post_update [OF u] obtain pc where "u_post_content u = Some pc" by blast
  then have pc: "post_content (merge s u) = Some pc" by (simp add: merge_def)
  from request_approval_interrupts [OF pc, of e 23] obtain payload where
    p: "drive e 24 N_request_approval None (merge s u)
        = \<lparr>r_outcome = Suspended payload, r_state = merge s u, r_cursor = Awaiting, r_trace = []\<rparr>"
    by (auto simp add: eval_nat_numeral)
  have g: "run_node e N_generate None s = Update u" using u by (simp add: run_node_def)
  have "drive e (Suc 24) N_generate None s
        = \<lparr>r_outcome = Suspended payload, r_state = merge s u, r_cursor = Awaiting,
           r_trace = [N_generate]\<rparr>"
    using drive_update_node [OF g next_target_static(1) p] by simp
  then have "drive e 25 N_generate None s
        = \<lparr>r_outcome = Suspended payload, r_state = merge s u, r_cursor = Awaiting,
           r_trace = [N_generate]\<rparr>"
    by simp
  with u show ?thesis by (auto simp add: graph_invoke_def recursion_limit_def entry_point_def)
qed

lemma reject_feedback_step:
  assumes "is_reject v" and "post_content s = Some pc"
  shows "\<exists>u fb. run_node e N_request_approval (Some v) s = Update u
           \<and> human_feedback (merge s u) = Some fb \<and> action fb = ''reject''
           \<and> post_content (merge s u) = Some pc
           \<and> generation_attempts (merge s u) = generation_attempts s
           \<and> max_attempts (merge s u) = max_attempts s
           \<and> AgentState.platform (merge s u) = AgentState.platform s"
  using assms
  by (auto simp add: is_reject_def run_node_def request_approval_def merge_def no_update_def
        split: sum.splits)

lemma reject_round_exhausted:
  assumes "is_reject v" and "post_content s = Some pc"
    and "max_attempts s \<le> generation_attempts s"
  shows "\<exists>s'. drive e (Suc (Suc k)) N_request_approval (Some v) s
           = \<lparr>r_outcome = Finished, r_state = s', r_cursor = Done,
              r_trace = [N_request_approval, N_process_feedback]\<rparr>
         \<and> status s' = FAILED
         \<and> error_message s'
             = Some (''Max generation attempts ('' @ str_int (max_attempts s) @ '') reached'')
         \<and> generation_attempts s' = generation_attempts s
         \<and> max_attempts s' = max_attempts s"
proof -
  from reject_feedback_step [OF assms(1,2), of e] obtain u fb where
    u: "run_node e N_request_approval (Some v) s = Update u"
    and fb: "human_feedback (merge s u) = Some fb" "action fb = ''reject''"
    and keep: "generation_attempts (merge s u) = generation_attempts s"
              "max_attempts (merge s u) = max_attempts s"
    by blast
  let ?s1 = "merge s u"
  let ?u2 = "process_feedback e ?s1"
  have u2: "?u2 = no_update\<lparr>u_status := Some FAILED,
      u_error_message := Some (Some (''Max generation attempts ('' @ str_int (max_attempts s)
                                      @ '') reached''))\<rparr>"
    using fb keep assms(3) by (simp add: process_feedback_def)
  let ?s2 = "merge ?s1 ?u2"
  have s2: "status ?s2 = FAILED"
    "error_message ?s2 = Some (''Max generation attempts ('' @ str_int (max_attempts s) @ '') reached'')"
    "generation_attempts ?s2 = generation_attempts s" "max_attempts ?s2 = max_attempts s"
    using keep by (simp_all add: merge_fields u2 no_update_def)
  have nt: "next_target N_process_feedback ?s2 = Some END"
    using s2(1) by (simp add: next_target_def should_regenerate_def path_map_def)
  note d2 = drive_update_end [OF run_node_process_feedback nt, of k None]
  have "drive e (Suc (Suc k)) N_request_approval (Some v) s
        = \<lparr>r_outcome = Finished, r_state = ?s2, r_cursor = Done,
           r_trace = [N_request_approval, N_process_feedback]\<rparr>"
    using drive_update_node [OF u next_target_static(2) d2] by simp
  with s2 show ?thesis by blast
qed

lemma reject_round_regenerates:
  assumes "is_reject v" and "post_content s = Some pc"
    and "generation_attempts s < max_attempts s" and "llm_answers e"
  shows "\<exists>s' payload pc'. drive e (Suc (Suc (Suc (Suc k)))) N_request_approval (Some v) s
           = \<lparr>r_outcome = Suspended payload, r_state = s', r_cursor = Awaiting,
              r_trace = [N_request_approval, N_process_feedback, N_generate]\<rparr>
         \<and> status s' = PENDING_APPROVAL
         \<and> post_content s' = Some pc'
         \<and> human_feedback s' = None
         \<and> generation_attempts s' = generation_attempts s + 1
         \<and> max_attempts s' = max_attempts s"
proof -
  from reject_feedback_step [OF assms(1,2), of e] obtain u fb where
    u: "run_node e N_request_approval (Some v) s = Update u"
    and fb: "human_feedback (merge s u) = Some fb" "action fb = ''reject''"
    and keep: "generation_attempts (merge s u) = generation_attempts s"
              "max_attempts (merge s u) = max_attempts s"
    by blast
  let ?s1 = "merge s u"
  let ?u2 = "process_feedback e ?s1"
  have u2: "?u2 = no_update\<lparr>u_status := Some DRAFT, u_human_feedback := Some None\<rparr>"
    using fb keep assms(3) by (simp add: process_feedback_def)
  let ?s2 = "merge ?s1 ?u2"
  have s2: "status ?s2 = DRAFT" "human_feedback ?s2 = None"
    "generation_attempts ?s2 = generation_attempts s" "max_attempts ?s2 = max_attempts s"
    using keep by (simp_all add: merge_fields u2 no_update_def)
  have nt: "next_target N_process_feedback ?s2 = Some (Node N_generate)"
    using s2(1) by (simp add: next_target_def should_regenerate_def path_map_def)
  from generate_post_answers [OF assms(4)] obtain u3 where u3: "generate_post e ?s2 = Inr u3"
    by blast
  from generate_post_update [OF u3] obtain pc' where
    g: "u_post_content u3 = Some pc'" "u_status u3 = Some PENDING_APPROVAL"
       "u_human_feedback u3 = None" "u_generation_attempts u3 = Some (generation_attempts ?s2 + 1)"
    by blast
  let ?s3 = "merge ?s2 u3"
  have s3: "status ?s3 = PENDING_APPROVAL" "post_content ?s3 = Some pc'"
    "human_feedback ?s3 = None"
    "generation_attempts ?s3 = generation_attempts s + 1" "max_attempts ?s3 = max_attempts s"
    using g s2 by (simp_all add: merge_fields)
  from request_approval_interrupts [OF s3(2), of e k] obtain payload where
    p: "drive e (Suc k) N_request_approval None ?s3
        = \<lparr>r_outcome = Suspended payload, r_state = ?s3, r_cursor = Awaiting, r_trace = []\<rparr>"
    by blast
  have g3: "run_node e N_generate None ?s2 = Update u3"
    using u3 by (simp add: run_node_def)
  have d3: "drive e (Suc (Suc k)) N_generate None ?s2
        = \<lparr>r_outcome = Suspended payload, r_state = ?s3, r_cursor = Awaiting,
           r_trace = [N_generate]\<rparr>"
    using drive_update_node [OF g3 next_target_static(1) p] by simp
  have d2: "drive e (Suc (Suc (Suc k))) N_process_feedback None ?s1
        = \<lparr>r_outcome = Suspended payload, r_state = ?s3, r_cursor = Awaiting,
           r_trace = [N_process_feedback, N_generate]\<rparr>"
    using drive_update_node [OF run_node_process_feedback nt d3] by simp
  have "drive e (Suc (Suc (Suc (Suc k)))) N_request_approval (Some v) s
        = \<lparr>r_outcome = Suspended payload, r_state = ?s3, r_cursor = Awaiting,
           r_trace = [N_request_approval, N_process_feedback, N_generate]\<rparr>"
    using drive_update_node [OF u next_target_static(2) d2] by simp
  with s3 show ?thesis by blast
qed

section \<open>Rounds of rejection\<close>

lemma resume_all_stopped:
  assumes "r_cursor r \<noteq> Awaiting"
  shows "resume_all r rounds = r"
  using assms by (cases rounds) (auto simp add: graph_resume_def)

lemma recursion_limit_Suc: "recursion_limit = Suc (Suc (Suc (Suc 21)))"
  by (simp add: recursion_limit_def)

lemma resume_all_awaiting:
  assumes "r_cursor r = Awaiting"
  shows "resume_all r ((e, v) # rounds)
         = resume_all ((drive e recursion_limit N_request_approval (Some v) (r_state r))
             \<lparr>r_trace := r_trace r
                @ r_trace (drive e recursion_limit N_request_approval (Some v) (r_state r))\<rparr>) rounds"
  using assms by (simp add: graph_resume_def)

lemma reject_rounds_fail:
  assumes "\<forall>x \<in> set rounds. llm_answers (fst x) \<and> is_reject (snd x)"
    and "r_cursor r = Awaiting" and "post_content (r_state r) = Some pc"
    and "generation_attempts (r_state r) \<le> max_attempts (r_state r)"
    and "nat (max_attempts (r_state r) - generation_attempts (r_state r)) < length rounds"
  shows "r_outcome (resume_all r rounds) = Finished
       \<and> status (r_state (resume_all r rounds)) = FAILED
       \<and> error_message (r_state (resume_all r rounds))
           = Some (''Max generation attempts ('' @ str_int (max_attempts (r_state r)) @ '') reached'')
       \<and> generation_attempts (r_state (resume_all r rounds)) = max_attempts (r_state r)
       \<and> count_list (r_trace (resume_all r rounds)) N_generate
           = count_list (r_trace r) N_generate
             + nat (max_attempts (r_state r) - generation_attempts (r_state r))"
  using assms
proof (induction rounds arbitrary: r pc)
  case Nil
  then show ?case by simp
next
  case (Cons x rounds)
  obtain e v where x: "x = (e, v)" by (cases x)
  from Cons.prems(1) x have ev: "llm_answers e" "is_reject v" by auto
  let ?s = "r_state r"
  let ?d = "drive e recursion_limit N_request_approval (Some v) ?s"
  let ?r = "?d\<lparr>r_trace := r_trace r @ r_trace ?d\<rparr>"
  have step: "resume_all r (x # rounds) = resume_all ?r rounds"
    using resume_all_awaiting [OF Cons.prems(2)] x by simp
  show ?case
  proof (cases "generation_attempts ?s < max_attempts ?s")
    case False
    with Cons.prems(4) have eq: "generation_attempts ?s = max_attempts ?s" by simp
    then have le: "max_attempts ?s \<le> generation_attempts ?s" by simp
    from reject_round_exhausted [OF ev(2) Cons.prems(3) le, of e 23]
    obtain s' where d: "?d = \<lparr>r_outcome = Finished, r_state = s', r_cursor = Done,
              r_trace = [N_request_approval, N_process_feedback]\<rparr>"
      and s': "status s' = FAILED"
        "error_message s'
           = Some (''Max generation attempts ('' @ str_int (max_attempts ?s) @ '') reached'')"
        "generation_attempts s' = generation_attempts ?s"
      by (auto simp add: recursion_limit_def eval_nat_numeral)
    have "r_cursor ?r \<noteq> Awaiting" by (simp add: d)
    from resume_all_stopped [OF this] step have "resume_all r (x # rounds) = ?r" by simp
    then show ?thesis using s' eq by (simp add: d)
  next
    case True
    from reject_round_regenerates [OF ev(2) Cons.prems(3) True ev(1), of 21]
    obtain s' payload pc' where d: "?d = \<lparr>r_outcome = Suspended payload, r_state = s',
              r_cursor = Awaiting, r_trace = [N_request_approval, N_process_feedback, N_generate]\<rparr>"
      and s': "post_content s' = Some pc'"
        "generation_attempts s' = generation_attempts ?s + 1"
        "max_attempts s' = max_attempts ?s"
      by (auto simp add: recursion_limit_Suc)
    have r1: "r_cursor ?r = Awaiting" "post_content (r_state ?r) = Some pc'"
      "generation_attempts (r_state ?r) \<le> max_attempts (r_state ?r)"
      "nat (max_attempts (r_state ?r) - generation_attempts (r_state ?r)) < length rounds"
      using s' True Cons.prems(5) by (auto simp add: d)
    from Cons.prems(1) have all: "\<forall>x \<in> set rounds. llm_answers (fst x) \<and> is_reject (snd x)"
      by simp
    note ih = Cons.IH [OF all r1]
    have st: "r_state ?r = s'" by (simp add: d)
    have tr: "count_list (r_trace ?r) N_generate = count_list (r_trace r) N_generate + 1"
      by (simp add: d)
    show ?thesis using ih s' True by (simp only: step st tr) auto
  qed
qed

lemma reject_rounds_pending:
  assumes "\<forall>x \<in> set rounds. llm_answers (fst x) \<and> is_reject (snd x)"
    and "r_cursor r = Awaiting" and "post_content (r_state r) = Some pc"
    and "status (r_state r) = PENDING_APPROVAL"
    and "int (length rounds) \<le> max_attempts (r_state r) - generation_attempts (r_state r)"
  shows "r_cursor (resume_all r rounds) = Awaiting
       \<and> status (r_state (resume_all r rounds)) = PENDING_APPROVAL
       \<and> generation_attempts (r_state (resume_all r rounds))
           = generation_attempts (r_state r) + int (length rounds)
       \<and> count_list (r_trace (resume_all r rounds)) N_generate
           = count_list (r_trace r) N_generate + length rounds"
  using assms
proof (induction rounds arbitrary: r pc)
  case Nil
  then show ?case by simp
next
  case (Cons x rounds)
  obtain e v where x: "x = (e, v)" by (cases x)
  from Cons.prems(1) x have ev: "llm_answers e" "is_reject v" by auto
  let ?s = "r_state r"
  let ?d = "drive e recursion_limit N_request_approval (Some v) ?s"
  let ?r = "?d\<lparr>r_trace := r_trace r @ r_trace ?d\<rparr>"
  have step: "resume_all r (x # rounds) = resume_all ?r rounds"
    using resume_all_awaiting [OF Cons.prems(2)] x by simp
  from Cons.prems(5) have lt: "generation_attempts ?s < max_attempts ?s" by simp
  from reject_round_regenerates [OF ev(2) Cons.prems(3) lt ev(1), of 21]
  obtain s' payload pc' where d: "?d = \<lparr>r_outcome = Suspended payload, r_state = s',
            r_cursor = Awaiting, r_trace = [N_request_approval, N_process_feedback, N_generate]\<rparr>"
    and s': "post_content s' = Some pc'" "status s' = PENDING_APPROVAL"
      "generation_attempts s' = generation_attempts ?s + 1"
      "max_attempts s' = max_attempts ?s"
    by (auto simp add: recursion_limit_Suc)
  have r1: "r_cursor ?r = Awaiting" "post_content (r_state ?r) = Some pc'"
    "status (r_state ?r) = PENDING_APPROVAL"
    "int (length rounds) \<le> max_attempts (r_state ?r) - generation_attempts (r_state ?r)"
    using s' Cons.prems(5) by (auto simp add: d)
  from Cons.prems(1) have all: "\<forall>x \<in> set rounds. llm_answers (fst x) \<and> is_reject (snd x)"
    by simp
  note ih = Cons.IH [OF all r1]
  have st: "r_state ?r = s'" by (simp add: d)
  have tr: "count_list (r_trace ?r) N_generate = count_list (r_trace r) N_generate + 1"
    by (simp add: d)
  show ?case using ih s' by (simp only: step st tr) auto
qed

section \<open>Properties of the handlers\<close>

lemma drive_generate_cases:
  "(\<exists>ex. drive e (Suc (Suc k)) N_generate None s
           = \<lparr>r_outcome = Failed ex, r_state = s, r_cursor = At N_generate, r_trace = []\<rparr>)
   \<or> (\<exists>payload u. generate_post e s = Inr u
         \<and> drive e (Suc (Suc k)) N_generate None s
             = \<lparr>r_outcome = Suspended payload, r_state = merge s u, r_cursor = Awaiting,
                r_trace = [N_generate]\<rparr>)"
proof (cases "generate_post e s")
  case (Inl ex)
  then show ?thesis by (simp add: run_node_def)
next
  case (Inr u)
  from generate_post_update [OF Inr] obtain pc where "u_post_content u = Some pc" by blast
  then have pc: "post_content (merge s u) = Some pc" by (simp add: merge_fields)
  from request_approval_interrupts [OF pc, of e k] obtain payload where
    p: "drive e (Suc k) N_request_approval None (merge s u)
        = \<lparr>r_outcome = Suspended payload, r_state = merge s u, r_cursor = Awaiting, r_trace = []\<rparr>"
    by blast
  have g: "run_node e N_generate None s = Update u" using Inr by (simp add: run_node_def)
  from drive_update_node [OF g next_target_static(1) p] Inr show ?thesis by simp
qed

lemma generate_post_status:
  assumes "generate_post e s = Inr u"
  shows "status (merge s u) = PENDING_APPROVAL"
  using generate_post_update [OF assms] by (auto simp add: merge_fields)

lemma drive_generate_live:
  assumes "\<not> terminal (status s)"
  shows "\<not> terminal (status (r_state (drive e (Suc (Suc k)) N_generate None s)))"
  using drive_generate_cases [of e k s] assms generate_post_status [of e s]
  by (auto simp add: terminal_def)

lemma drive_publish:
  "drive e (Suc k) N_publish resume s
   = \<lparr>r_outcome = Finished, r_state = merge s (fst (publish_post e s)), r_cursor = Done,
      r_trace = [N_publish]\<rparr>"
  by (simp add: run_node_def next_target_static Let_def)

lemma drive_process_feedback_failed:
  assumes "r_outcome (drive e (Suc (Suc (Suc k))) N_process_feedback resume s) = Failed ex"
  shows "\<not> terminal (status (r_state (drive e (Suc (Suc (Suc k))) N_process_feedback resume s)))"
proof -
  let ?s2 = "merge s (process_feedback e s)"
  consider (pub) "status ?s2 = APPROVED" | (gen) "status ?s2 = DRAFT"
    | (fin) "status ?s2 \<noteq> APPROVED" "status ?s2 \<noteq> DRAFT" by blast
  then show ?thesis
  proof cases
    case pub
    then have nt: "next_target N_process_feedback ?s2 = Some (Node N_publish)"
      by (simp add: next_target_static should_regenerate_def path_map_def)
    from drive_update_node [OF run_node_process_feedback nt drive_publish] assms
    show ?thesis by simp
  next
    case gen
    then have nt: "next_target N_process_feedback ?s2 = Some (Node N_generate)"
      by (simp add: next_target_static should_regenerate_def path_map_def)
    have live: "\<not> terminal (status ?s2)" using gen by (simp add: terminal_def)
    from drive_update_node [OF run_node_process_feedback nt refl, of "Suc (Suc k)" resume]
      drive_generate_live [OF live, of e k]
    show ?thesis by simp
  next
    case fin
    then have nt: "next_target N_process_feedback ?s2 = Some END"
      by (simp add: next_target_static should_regenerate_def path_map_def)
    from drive_update_end [OF run_node_process_feedback nt, of "Suc (Suc k)" resume] assms
    show ?thesis by simp
  qed
qed

lemma drive_resume_failed:
  assumes "\<not> terminal (status s)"
    and "r_outcome (drive e (Suc (Suc (Suc (Suc k)))) N_request_approval resume s) = Failed ex"
  shows "\<not> terminal (status (r_state (drive e (Suc (Suc (Suc (Suc k)))) N_request_approval resume s)))"
proof (cases "run_node e N_request_approval resume s")
  case (Update u)
  from drive_update_node [OF Update next_target_static(2) refl, of "Suc (Suc (Suc k))"]
    drive_process_feedback_failed [of e k None "merge s u" ex] assms(2)
  show ?thesis by simp
next
  case (Interrupt payload)
  with assms show ?thesis by simp
next
  case (Raise ex')
  with assms show ?thesis by simp
qed

lemma pending_live_empty: "pending_live empty_server"
  by (simp add: pending_live_def empty_server_def)

lemma pending_live_generate:
  assumes "pending_live srv"
  shows "pending_live (api_generate_post e tid request srv)"
proof -
  let ?s0 = "AgentState_init (g_topic request) (g_platform request) (g_tone request)
               (g_additional_context request) tid"
  have "\<not> terminal (status ?s0)" by (simp add: AgentState_init_def terminal_def)
  from drive_generate_live [OF this, of e 23]
  have live: "\<not> terminal (status (r_state (graph_invoke e ?s0)))"
    by (simp add: graph_invoke_def recursion_limit_def entry_point_def eval_nat_numeral)
  show ?thesis
    unfolding pending_live_def
  proof
    fix t
    show "case pending_threads (api_generate_post e tid request srv) t of
            None \<Rightarrow> True
          | Some en \<Rightarrow> \<not> thread_unknown (api_generate_post e tid request srv) t
                       \<and> \<not> thread_terminal (api_generate_post e tid request srv) t"
    proof (cases "t = tid")
      case True
      with live show ?thesis
        by (cases "r_outcome (graph_invoke e ?s0)")
           (auto simp add: api_generate_post_def ainvoke_input_def Let_def thread_unknown_def
              thread_terminal_def split: option.splits)
    next
      case False
      with assms [unfolded pending_live_def, rule_format, of t] show ?thesis
        by (cases "r_outcome (graph_invoke e ?s0)")
           (auto simp add: api_generate_post_def ainvoke_input_def Let_def thread_unknown_def
              thread_terminal_def split: option.splits)
    qed
  qed
qed

lemma graph_resume_failed_live:
  assumes "\<not> terminal (status (fst ck))" and "graph_resume e ck v = Inr r"
    and "r_outcome r = Failed ex"
  shows "\<not> terminal (status (r_state r))"
proof -
  from assms(2) have r: "r = drive e (Suc (Suc (Suc (Suc 21)))) N_request_approval (Some v) (fst ck)"
    by (auto simp add: graph_resume_def recursion_limit_Suc split: if_splits)
  from drive_resume_failed [OF assms(1), of e 21 "Some v" ex] assms(3) show ?thesis
    by (simp add: r)
qed

lemma approve_post_unknown:
  assumes "pending_threads srv tid = None"
  shows "approve_post e tid request srv = (Inl (HTTPException 404 ''Thread not found''), srv)"
  using assms by (simp add: approve_post_def)

lemma ainvoke_resume_cases:
  assumes "\<not> thread_unknown srv tid" and "\<not> thread_terminal srv tid"
  shows "(\<exists>ex. ainvoke_resume e tid v srv = (Inl ex, srv))
    \<or> (\<exists>ex s c. ainvoke_resume e tid v srv
                   = (Inl ex, srv\<lparr>checkpointer := (checkpointer srv)(tid := Some (s, c))\<rparr>)
                 \<and> \<not> terminal (status s))
    \<or> (\<exists>s c. ainvoke_resume e tid v srv
                = (Inr s, srv\<lparr>checkpointer := (checkpointer srv)(tid := Some (s, c))\<rparr>))"
proof -
  from assms obtain ck where ck: "checkpointer srv tid = Some ck"
    and live: "\<not> terminal (status (fst ck))"
    by (auto simp add: thread_unknown_def thread_terminal_def split: option.splits)
  show ?thesis
  proof (cases "graph_resume e ck v")
    case (Inl ex)
    with ck show ?thesis by (simp add: ainvoke_resume_def)
  next
    case (Inr r)
    show ?thesis
    proof (cases "r_outcome r")
      case Finished
      with ck Inr have "ainvoke_resume e tid v srv
          = (Inr (r_state r),
             srv\<lparr>checkpointer := (checkpointer srv)(tid := Some (r_state r, r_cursor r))\<rparr>)"
        by (simp add: ainvoke_resume_def Let_def)
      then show ?thesis by blast
    next
      case (Suspended payload)
      with ck Inr have "ainvoke_resume e tid v srv
          = (Inr (r_state r),
             srv\<lparr>checkpointer := (checkpointer srv)(tid := Some (r_state r, r_cursor r))\<rparr>)"
        by (simp add: ainvoke_resume_def Let_def)
      then show ?thesis by blast
    next
      case (Failed ex)
      with ck Inr have "ainvoke_resume e tid v srv
          = (Inl ex,
             srv\<lparr>checkpointer := (checkpointer srv)(tid := Some (r_state r, r_cursor r))\<rparr>)"
        by (simp add: ainvoke_resume_def Let_def)
      with graph_resume_failed_live [OF live Inr Failed] show ?thesis by blast
    qed
  qed
qed

lemma pending_live_approve:
  assumes "pending_live srv"
  shows "pending_live (snd (approve_post e tid request srv))"
proof (cases "pending_threads srv tid")
  case None
  with assms show ?thesis by (simp add: approve_post_unknown)
next
  case (Some entry)
  let ?v = "Dict ((\<lambda>_. None)
                 (''action'' := Some (Some (a_action request)),
                  ''edited_text'' := Some (a_edited_text request),
                  ''feedback_message'' := Some (a_feedback_message request)))"
  from assms Some have known: "\<not> thread_unknown srv tid" "\<not> thread_terminal srv tid"
    by (auto simp add: pending_live_def split: option.splits dest!: spec [of _ tid])
  have others: "\<And>t. t \<noteq> tid \<Longrightarrow> case pending_threads srv t of None \<Rightarrow> True
      | Some en \<Rightarrow> \<not> thread_unknown srv t \<and> \<not> thread_terminal srv t"
    using assms by (simp add: pending_live_def)
  from ainvoke_resume_cases [OF known, of e ?v]
  consider (same) ex where "ainvoke_resume e tid ?v srv = (Inl ex, srv)"
    | (failed) ex s c where "ainvoke_resume e tid ?v srv
                   = (Inl ex, srv\<lparr>checkpointer := (checkpointer srv)(tid := Some (s, c))\<rparr>)"
        "\<not> terminal (status s)"
    | (ran) s c where "ainvoke_resume e tid ?v srv
                = (Inr s, srv\<lparr>checkpointer := (checkpointer srv)(tid := Some (s, c))\<rparr>)"
    by blast
  then show ?thesis
  proof cases
    case same
    with Some assms show ?thesis by (simp add: approve_post_def)
  next
    case failed
    have "snd (approve_post e tid request srv)
          = srv\<lparr>checkpointer := (checkpointer srv)(tid := Some (s, c))\<rparr>"
      using Some failed(1) by (simp add: approve_post_def)
    moreover have "pending_live (srv\<lparr>checkpointer := (checkpointer srv)(tid := Some (s, c))\<rparr>)"
      unfolding pending_live_def
    proof
      fix t
      show "case pending_threads (srv\<lparr>checkpointer := (checkpointer srv)(tid := Some (s, c))\<rparr>) t of
              None \<Rightarrow> True
            | Some en \<Rightarrow>
                \<not> thread_unknown (srv\<lparr>checkpointer := (checkpointer srv)(tid := Some (s, c))\<rparr>) t
                \<and> \<not> thread_terminal (srv\<lparr>checkpointer := (checkpointer srv)(tid := Some (s, c))\<rparr>) t"
        using others [of t] failed(2)
        by (cases "t = tid")
           (auto simp add: thread_unknown_def thread_terminal_def split: option.splits)
    qed
    ultimately show ?thesis by simp
  next
    case ran
    let ?srv' = "srv\<lparr>checkpointer := (checkpointer srv)(tid := Some (s, c))\<rparr>"
    let ?pending = "(if status s = PUBLISHED \<or> status s = FAILED
                     then (pending_threads srv)(tid := None)
                     else (pending_threads srv)(tid := Some (entry\<lparr>pe_result := s\<rparr>)))"
    have eq: "snd (approve_post e tid request srv) = ?srv'\<lparr>pending_threads := ?pending\<rparr>"
      using Some ran by (simp add: approve_post_def Let_def)
    have "pending_live (?srv'\<lparr>pending_threads := ?pending\<rparr>)"
      unfolding pending_live_def
    proof
      fix t
      show "case pending_threads (?srv'\<lparr>pending_threads := ?pending\<rparr>) t of
              None \<Rightarrow> True
            | Some en \<Rightarrow> \<not> thread_unknown (?srv'\<lparr>pending_threads := ?pending\<rparr>) t
                         \<and> \<not> thread_terminal (?srv'\<lparr>pending_threads := ?pending\<rparr>) t"
        using others [of t]
        by (cases "t = tid")
           (auto simp add: thread_unknown_def thread_terminal_def terminal_def
              split: option.splits)
    qed
    with eq show ?thesis by simp
  qed
qed

lemma pending_live_step:
  assumes "pending_live srv"
  shows "pending_live (api_step srv call)"
  using assms by (cases call) (simp_all add: pending_live_generate pending_live_approve)

lemma pending_live_foldl:
  assumes "pending_live srv"
  shows "pending_live (foldl api_step srv calls)"
  using assms by (induction calls arbitrary: srv) (simp_all add: pending_live_step)

lemma pending_live_run: "pending_live (api_run calls)"
  unfolding api_run_def by (rule pending_live_foldl [OF pending_live_empty])

section \<open>The hashtag policy as an invariant\<close>

lemma run_node_hashtag_bound:
  assumes "hashtag_bound s" and "run_node e n resume s = Update u"
  shows "hashtag_bound (merge s u)"
proof (cases n)
  case N_generate
  with assms(2) have "generate_post e s = Inr u"
    by (auto simp add: run_node_def split: sum.splits)
  from generate_post_update [OF this] show ?thesis
    by (auto simp add: hashtag_bound_def merge_fields split: option.splits)
next
  case N_request_approval
  with assms request_approval_update [of resume s u] show ?thesis
    by (auto simp add: run_node_def hashtag_bound_def merge_fields split: option.splits)
next
  case N_process_feedback
  with assms(2) have u: "u = process_feedback e s" by (simp add: run_node_def)
  from process_feedback_update [of e s] assms(1) show ?thesis
    by (auto simp add: u hashtag_bound_def merge_fields split: option.splits)
next
  case N_publish
  with assms publish_post_update [of e s] show ?thesis
    by (auto simp add: run_node_def hashtag_bound_def merge_fields split: option.splits)
qed

lemma exec_nodes_hashtag_bound:
  assumes "hashtag_bound s"
  shows "hashtag_bound (fst (exec_nodes s xs))"
  using assms
proof (induction xs arbitrary: s)
  case Nil
  then show ?case by simp
next
  case (Cons x xs)
  obtain e n resume where x: "x = (e, n, resume)" by (cases x)
  show ?case
  proof (cases "run_node e n resume s")
    case (Update u)
    from Cons.IH [OF run_node_hashtag_bound [OF Cons.prems Update]]
    show ?thesis using x Update by (auto split: prod.splits)
  next
    case (Interrupt payload)
    with Cons.IH [OF Cons.prems] x show ?thesis by simp
  next
    case (Raise ex)
    with Cons.IH [OF Cons.prems] x show ?thesis by simp
  qed
qed

lemma drive_hashtag_bound:
  assumes "hashtag_bound s"
  shows "hashtag_bound (r_state (drive e k n resume s))"
  using assms
proof (induction k arbitrary: n resume s)
  case 0
  then show ?case by simp
next
  case (Suc k)
  show ?case
  proof (cases "run_node e n resume s")
    case (Update u)
    note b = run_node_hashtag_bound [OF Suc.prems Update]
    show ?thesis
    proof (cases "next_target n (merge s u)")
      case None
      with Update b show ?thesis by simp
    next
      case (Some t)
      show ?thesis
      proof (cases t)
        case END
        with Some Update b show ?thesis by simp
      next
        case (Node n')
        with Some Update Suc.IH [OF b, of n' None] show ?thesis by (simp add: Let_def)
      qed
    qed
  next
    case (Interrupt payload)
    with Suc.prems show ?thesis by simp
  next
    case (Raise ex)
    with Suc.prems show ?thesis by simp
  qed
qed

lemma llm_answers_env_ok: "llm_answers env_ok"
  by (simp add: llm_answers_def env_ok_def split: prompt.splits)

lemma length_join_hashtags:
  "tags \<noteq> [] \<Longrightarrow>
   int (length (join '' '' (map (\<lambda>tag. CHR ''#'' # tag) tags))) + 1
   = (\<Sum>t\<leftarrow>tags. int (length t) + 2)"
proof (induction tags rule: list_nonempty_induct)
  case (single x)
  show ?case by simp
next
  case (cons x xs)
  then show ?case by (cases xs) auto
qed

lemma parse_literal_forms:
  "parse_human_response (Str ''approve'')
     = Inr \<lparr>action = ''approve'', edited_text = None, feedback_message = None\<rparr>"
  "parse_human_response (Str ''reject'')
     = Inr \<lparr>action = ''reject'', edited_text = None, feedback_message = None\<rparr>"
  "parse_human_response (Str ''edit: new copy'')
     = Inr \<lparr>action = ''edit'', edited_text = Some ''new copy'', feedback_message = None\<rparr>"
  by code_simp+

lemma parse_dict_form:
  assumes "a = ''approve'' \<or> a = ''reject'' \<or> a = ''edit''"
  shows "parse_human_response
           (Dict ((\<lambda>_. None)(''action'' := Some (Some a), ''edited_text'' := Some txt,
                              ''feedback_message'' := Some msg)))
         = Inr \<lparr>action = a, edited_text = txt, feedback_message = msg\<rparr>"
  using assms by (auto simp add: parse_human_response_def HumanFeedback_init_def)

section \<open>Properties stated by the specification\<close>

subsection \<open>C1: bounded regeneration\<close>

text \<open>
  C1. When every approval round is answered with a rejection, a thread that starts with no
  attempt made and a budget of at least one, and whose language model answers, reaches status
  \<open>FAILED\<close> after exactly \<open>max_attempts\<close> executions of the draft node, with an error
  message that names \<open>max_attempts\<close>; with fewer rounds than the budget it is still awaiting
  approval. On a rejection \<open>process_feedback\<close> returns status \<open>DRAFT\<close> while
  \<open>generation_attempts < max_attempts\<close> and status \<open>FAILED\<close> with that message otherwise.
\<close>

theorem bounded_regeneration:
  assumes "generation_attempts s0 = 0" and "1 \<le> max_attempts s0" and "llm_answers e0"
    and "\<forall>x \<in> set rounds. llm_answers (fst x) \<and> is_reject (snd x)"
  shows "(nat (max_attempts s0) \<le> length rounds \<longrightarrow>
            r_outcome (run_thread e0 s0 rounds) = Finished
          \<and> status (r_state (run_thread e0 s0 rounds)) = FAILED
          \<and> count_list (r_trace (run_thread e0 s0 rounds)) N_generate = nat (max_attempts s0)
          \<and> generation_attempts (r_state (run_thread e0 s0 rounds)) = max_attempts s0
          \<and> error_message (r_state (run_thread e0 s0 rounds))
              = Some (''Max generation attempts ('' @ str_int (max_attempts s0) @ '') reached''))
       \<and> (length rounds < nat (max_attempts s0) \<longrightarrow>
            r_cursor (run_thread e0 s0 rounds) = Awaiting
          \<and> status (r_state (run_thread e0 s0 rounds)) = PENDING_APPROVAL
          \<and> count_list (r_trace (run_thread e0 s0 rounds)) N_generate = length rounds + 1)
       \<and> (human_feedback s = Some fb \<and> action fb = ''reject'' \<longrightarrow>
            process_feedback e s =
              (if generation_attempts s < max_attempts s
               then no_update\<lparr>u_status := Some DRAFT, u_human_feedback := Some None\<rparr>
               else no_update
                      \<lparr>u_status := Some FAILED,
                       u_error_message :=
                         Some (Some (''Max generation attempts ('' @ str_int (max_attempts s)
                                       @ '') reached''))\<rparr>))"
proof -
  from graph_invoke_suspends [OF assms(3), of s0] obtain payload u where
    u: "generate_post e0 s0 = Inr u"
    and r: "graph_invoke e0 s0 = \<lparr>r_outcome = Suspended payload, r_state = merge s0 u,
                                   r_cursor = Awaiting, r_trace = [N_generate]\<rparr>"
    by blast
  let ?r = "graph_invoke e0 s0"
  from generate_post_update [OF u] obtain pc where
    g: "u_post_content u = Some pc" "u_status u = Some PENDING_APPROVAL"
       "u_generation_attempts u = Some (generation_attempts s0 + 1)"
    by blast
  have r0: "r_cursor ?r = Awaiting" "post_content (r_state ?r) = Some pc"
    "status (r_state ?r) = PENDING_APPROVAL"
    "generation_attempts (r_state ?r) = 1" "max_attempts (r_state ?r) = max_attempts s0"
    "count_list (r_trace ?r) N_generate = 1"
    using g assms(1) by (simp_all add: r merge_fields)
  have le: "generation_attempts (r_state ?r) \<le> max_attempts (r_state ?r)"
    using r0 assms(2) by simp
  have a: "nat (max_attempts s0) \<le> length rounds \<longrightarrow>
            r_outcome (run_thread e0 s0 rounds) = Finished
          \<and> status (r_state (run_thread e0 s0 rounds)) = FAILED
          \<and> count_list (r_trace (run_thread e0 s0 rounds)) N_generate = nat (max_attempts s0)
          \<and> generation_attempts (r_state (run_thread e0 s0 rounds)) = max_attempts s0
          \<and> error_message (r_state (run_thread e0 s0 rounds))
              = Some (''Max generation attempts ('' @ str_int (max_attempts s0) @ '') reached'')"
  proof
    assume n: "nat (max_attempts s0) \<le> length rounds"
    have lt: "nat (max_attempts (r_state ?r) - generation_attempts (r_state ?r)) < length rounds"
      using n assms(2) r0(4,5) by simp
    from reject_rounds_fail [OF assms(4) r0(1) r0(2) le lt] assms(2)
    show "r_outcome (run_thread e0 s0 rounds) = Finished
          \<and> status (r_state (run_thread e0 s0 rounds)) = FAILED
          \<and> count_list (r_trace (run_thread e0 s0 rounds)) N_generate = nat (max_attempts s0)
          \<and> generation_attempts (r_state (run_thread e0 s0 rounds)) = max_attempts s0
          \<and> error_message (r_state (run_thread e0 s0 rounds))
              = Some (''Max generation attempts ('' @ str_int (max_attempts s0) @ '') reached'')"
      by (simp add: run_thread_def r0(4,5,6))
  qed
  have b: "length rounds < nat (max_attempts s0) \<longrightarrow>
            r_cursor (run_thread e0 s0 rounds) = Awaiting
          \<and> status (r_state (run_thread e0 s0 rounds)) = PENDING_APPROVAL
          \<and> count_list (r_trace (run_thread e0 s0 rounds)) N_generate = length rounds + 1"
  proof
    assume n: "length rounds < nat (max_attempts s0)"
    have lt: "int (length rounds) \<le> max_attempts (r_state ?r) - generation_attempts (r_state ?r)"
      using n r0(4,5) by simp
    from reject_rounds_pending [OF assms(4) r0(1) r0(2) r0(3) lt]
    show "r_cursor (run_thread e0 s0 rounds) = Awaiting
          \<and> status (r_state (run_thread e0 s0 rounds)) = PENDING_APPROVAL
          \<and> count_list (r_trace (run_thread e0 s0 rounds)) N_generate = length rounds + 1"
      by (simp add: run_thread_def r0(6))
  qed
  have c: "human_feedback s = Some fb \<and> action fb = ''reject'' \<longrightarrow>
            process_feedback e s =
              (if generation_attempts s < max_attempts s
               then no_update\<lparr>u_status := Some DRAFT, u_human_feedback := Some None\<rparr>
               else no_update
                      \<lparr>u_status := Some FAILED,
                       u_error_message :=
                         Some (Some (''Max generation attempts ('' @ str_int (max_attempts s)
                                       @ '') reached''))\<rparr>)"
    by (auto simp add: process_feedback_def)
  from a b c show ?thesis by blast
qed

theorem bounded_regeneration_witness:
  "generation_attempts state0 = 0 \<and> 1 \<le> max_attempts state0 \<and> llm_answers env_ok
   \<and> list_all (\<lambda>x. llm_answers (fst x) \<and> is_reject (snd x)) reject3
   \<and> nat (max_attempts state0) \<le> length reject3
   \<and> status (r_state (run_thread env_ok state0 reject3)) = FAILED
   \<and> count_list (r_trace (run_thread env_ok state0 reject3)) N_generate = 3
   \<and> error_message (r_state (run_thread env_ok state0 reject3))
       = Some ''Max generation attempts (3) reached''"
proof -
  have h1: "generation_attempts state0 = 0" by (simp add: state0_def AgentState_init_def)
  have m: "max_attempts state0 = 3" by (simp add: state0_def AgentState_init_def)
  then have h2: "1 \<le> max_attempts state0" by simp
  have rj: "is_reject (Str ''reject'')" "is_reject (Str '' Reject '')"
    "is_reject (Dict ((\<lambda>_. None)(''action'' := Some (Some ''reject''))))"
    by code_simp+
  have h4: "\<forall>x \<in> set reject3. llm_answers (fst x) \<and> is_reject (snd x)"
    using llm_answers_env_ok rj by (simp add: reject3_def)
  have len: "nat (max_attempts state0) \<le> length reject3" by (simp add: m reject3_def)
  have str: "str_int 3 = ''3''" by code_simp
  from bounded_regeneration [OF h1 h2 llm_answers_env_ok h4] len
  show ?thesis using h1 h2 h4 llm_answers_env_ok by (simp add: m str list_all_iff)
qed

subsection \<open>C2: the attempt counter\<close>

text \<open>
  C2. Over any sequence of node executions, and over any run of the graph,
  \<open>generation_attempts\<close> grows by exactly the number of completed executions of the draft
  node, so it never decreases; an execution of \<open>generate_post\<close> adds one, and the update of
  any other node has no \<open>generation_attempts\<close> key.
\<close>

theorem generation_attempts_counts_drafts:
  "generation_attempts (fst (exec_nodes s xs))
     = generation_attempts s + int (count_list (snd (exec_nodes s xs)) N_generate)
   \<and> generation_attempts s \<le> generation_attempts (fst (exec_nodes s xs))
   \<and> generation_attempts (r_state (drive e k n resume s))
     = generation_attempts s + int (count_list (r_trace (drive e k n resume s)) N_generate)
   \<and> (run_node e N_generate resume s = Update u
        \<longrightarrow> generation_attempts (merge s u) = generation_attempts s + 1)
   \<and> (n \<noteq> N_generate \<and> run_node e n resume s = Update u
        \<longrightarrow> u_generation_attempts u = None
            \<and> generation_attempts (merge s u) = generation_attempts s)"
proof -
  have a: "generation_attempts (fst (exec_nodes s xs))
     = generation_attempts s + int (count_list (snd (exec_nodes s xs)) N_generate)"
    by (rule exec_nodes_attempts)
  have b: "generation_attempts s \<le> generation_attempts (fst (exec_nodes s xs))"
    using a by simp
  have c: "run_node e N_generate resume s = Update u
        \<longrightarrow> generation_attempts (merge s u) = generation_attempts s + 1"
    using run_node_merge_attempts [of e N_generate resume s u] by simp
  have d: "n \<noteq> N_generate \<and> run_node e n resume s = Update u
        \<longrightarrow> u_generation_attempts u = None
            \<and> generation_attempts (merge s u) = generation_attempts s"
    using run_node_merge_attempts [of e n resume s u] run_node_attempts [of e n resume s u]
    by simp
  from a b c d drive_attempts show ?thesis by blast
qed

theorem generation_attempts_counts_drafts_witness:
  "generation_attempts (fst (exec_nodes state0 steps0)) = 2
   \<and> count_list (snd (exec_nodes state0 steps0)) N_generate = 2
   \<and> run_node env_ok N_generate None state0 = Update update_ok
   \<and> generation_attempts (merge state0 update_ok) = 1
   \<and> N_process_feedback \<noteq> N_generate
   \<and> run_node env_ok N_process_feedback None state0 = Update (process_feedback env_ok state0)
   \<and> u_generation_attempts (process_feedback env_ok state0) = None"
proof -
  have z: "generation_attempts state0 = 0" by (simp add: state0_def AgentState_init_def)
  have tr: "snd (exec_nodes state0 steps0)
            = [N_generate, N_request_approval, N_process_feedback, N_generate,
               N_request_approval, N_process_feedback]" by code_simp
  have gen: "generate_post env_ok state0 = Inr update_ok" by code_simp
  then have g: "run_node env_ok N_generate None state0 = Update update_ok"
    by (simp add: run_node_def)
  have p: "run_node env_ok N_process_feedback None state0
           = Update (process_feedback env_ok state0)" by (simp add: run_node_def)
  note a = generation_attempts_counts_drafts
             [of state0 steps0 env_ok 0 N_generate None update_ok]
  note b = generation_attempts_counts_drafts
             [of state0 steps0 env_ok 0 N_process_feedback None "process_feedback env_ok state0"]
  from a g have a1: "generation_attempts (merge state0 update_ok) = 1" by (simp add: z)
  from a have a2: "generation_attempts (fst (exec_nodes state0 steps0)) = 2"
    by (simp add: z tr)
  from b p have b1: "u_generation_attempts (process_feedback env_ok state0) = None" by simp
  show ?thesis using a1 a2 b1 g p by (simp add: tr)
qed

subsection \<open>C3: normalizing the resume value\<close>

text \<open>
  C3. The string \<open>edit: Hello World\<close> is normalized to the action edit with the edited
  text \<open>hello world\<close>: the replacement text is cut from the lower-cased input, so it is not
  the text that follows \<open>edit:\<close>, which is \<open>Hello World\<close>.
\<close>

theorem parse_edit_lowercases:
  "parse_human_response (Str ''edit: Hello World'')
     = Inr \<lparr>action = ''edit'', edited_text = Some ''hello world'', feedback_message = None\<rparr>
   \<and> strip (drop 5 ''edit: Hello World'') = ''Hello World''"
  by code_simp

subsection \<open>C4: resuming an unknown or a terminal thread\<close>

text \<open>
  C4. In every state of the stores that calls of the handlers can reach, resuming a thread
  that has no checkpoint, or a thread whose persisted status is \<open>PUBLISHED\<close> or
  \<open>FAILED\<close>, fails with the error 404 \<open>Thread not found\<close> and leaves both stores as
  they were; nothing is created for an unknown thread.
\<close>

theorem resume_unknown_or_terminal:
  assumes "thread_unknown (api_run calls) tid \<or> thread_terminal (api_run calls) tid"
  shows "approve_post e tid request (api_run calls)
         = (Inl (HTTPException 404 ''Thread not found''), api_run calls)"
proof -
  have "pending_threads (api_run calls) tid = None"
    using pending_live_run [of calls] assms
    by (auto simp add: pending_live_def split: option.splits dest!: spec [of _ tid])
  then show ?thesis by (rule approve_post_unknown)
qed

theorem resume_unknown_or_terminal_witness:
  "thread_terminal (api_run calls0) ''t1''
   \<and> approve_post env_ok ''t1'' approve0 (api_run calls0)
       = (Inl (HTTPException 404 ''Thread not found''), api_run calls0)
   \<and> thread_unknown (api_run calls0) ''t2''
   \<and> approve_post env_ok ''t2'' approve0 (api_run calls0)
       = (Inl (HTTPException 404 ''Thread not found''), api_run calls0)"
proof -
  have t1: "thread_terminal (api_run calls0) ''t1''" by code_simp
  have t2: "thread_unknown (api_run calls0) ''t2''" by code_simp
  from t1 have h1: "thread_unknown (api_run calls0) ''t1'' \<or> thread_terminal (api_run calls0) ''t1''"
    by simp
  from t2 have h2: "thread_unknown (api_run calls0) ''t2'' \<or> thread_terminal (api_run calls0) ''t2''"
    by simp
  show ?thesis
    using t1 t2 resume_unknown_or_terminal [OF h1, of env_ok approve0]
      resume_unknown_or_terminal [OF h2, of env_ok approve0]
    by simp
qed

subsection \<open>C5: an edit keeps the hashtags\<close>

text \<open>
  C5. With a draft present and edit feedback that carries a non-empty text,
  \<open>process_feedback\<close> returns an update with exactly two keys: \<open>post_content\<close>, whose text
  is the edited text and whose hashtags are those of the draft before the edit, and
  \<open>status\<close>, which is \<open>APPROVED\<close>. Merging it changes no other field of the state.
\<close>

theorem process_feedback_edit:
  assumes "post_content s = Some pc" and "human_feedback s = Some fb"
    and "action fb = ''edit''" and "edited_text fb = Some txt" and "txt \<noteq> []"
  shows "process_feedback e s
         = no_update
             \<lparr>u_post_content :=
                Some \<lparr>text' = txt, platform = AgentState.platform s, hashtags = hashtags pc,
                      created_at = utcnow e\<rparr>,
              u_status := Some APPROVED\<rparr>
    \<and> merge s (process_feedback e s)
        = s\<lparr>post_content :=
               Some \<lparr>text' = txt, platform = AgentState.platform s, hashtags = hashtags pc,
                     created_at = utcnow e\<rparr>,
             status := APPROVED\<rparr>"
  using assms by (simp add: process_feedback_def merge_def no_update_def)

theorem process_feedback_edit_witness:
  "post_content state_edit = Some draft2
   \<and> human_feedback state_edit
       = Some \<lparr>action = ''edit'', edited_text = Some ''New copy'', feedback_message = None\<rparr>
   \<and> u_post_content (process_feedback env_ok state_edit)
       = Some \<lparr>text' = ''New copy'', platform = TWITTER, hashtags = [''a'', ''bc''],
               created_at = 7\<rparr>
   \<and> status (merge state_edit (process_feedback env_ok state_edit)) = APPROVED"
proof -
  have h1: "post_content state_edit = Some draft2"
    by (simp add: state_edit_def state_pending_def)
  have h2: "human_feedback state_edit
       = Some \<lparr>action = ''edit'', edited_text = Some ''New copy'', feedback_message = None\<rparr>"
    by (simp add: state_edit_def)
  have p: "AgentState.platform state_edit = TWITTER"
    by (simp add: state_edit_def state_pending_def state0_def AgentState_init_def)
  have h3: "action \<lparr>action = ''edit'', edited_text = Some ''New copy'', feedback_message = None\<rparr>
            = ''edit''" by simp
  have h4: "edited_text \<lparr>action = ''edit'', edited_text = Some ''New copy'',
                         feedback_message = None\<rparr> = Some ''New copy''" by simp
  have h5: "''New copy'' \<noteq> []" by simp
  note t = process_feedback_edit [OF h1 h2 h3 h4 h5, of env_ok]
  have c: "hashtags draft2 = [''a'', ''bc'']" "utcnow env_ok = 7"
    by (simp_all add: draft2_def env_ok_def)
  have u: "u_post_content (process_feedback env_ok state_edit)
       = Some \<lparr>text' = ''New copy'', platform = TWITTER, hashtags = [''a'', ''bc''],
               created_at = 7\<rparr>"
    by (simp add: t [THEN conjunct1] p c no_update_def)
  have m: "status (merge state_edit (process_feedback env_ok state_edit)) = APPROVED"
    by (simp only: t [THEN conjunct2]) simp
  show ?thesis using h1 h2 u m by simp
qed

subsection \<open>C6: unrecognized resume values\<close>

text \<open>
  C6. As stated, with the recognized forms taken literally, the claim fails: the string
  \<open>Reject\<close> is none of the three forms, yet it is normalized to the action reject with no
  message.
\<close>

theorem parse_reject_capital_counterexample:
  "\<not> recognized_form ''Reject''
   \<and> parse_human_response (Str ''Reject'')
       = Inr \<lparr>action = ''reject'', edited_text = None, feedback_message = None\<rparr>
   \<and> \<not> fails_open (parse_human_response (Str ''Reject''))"
  by code_simp

text \<open>
  C6. Amended: a string whose trimmed, lower-cased form is not \<open>approve\<close>, not
  \<open>reject\<close> and does not start with \<open>edit:\<close> is normalized, without failing, to the
  action approve with no edited text and the message \<open>Unclear response:\<close> followed by the
  string as it was given.
\<close>

theorem parse_unrecognized_fails_open:
  assumes "\<not> recognized_form (lower (strip r))"
  shows "parse_human_response (Str r)
         = Inr \<lparr>action = ''approve'', edited_text = None,
                 feedback_message = Some (''Unclear response: '' @ r)\<rparr>
         \<and> fails_open (parse_human_response (Str r))"
  using assms by (simp add: parse_human_response_def recognized_form_def fails_open_def Let_def)

theorem parse_unrecognized_fails_open_witness:
  "\<not> recognized_form (lower (strip ''Yes please''))
   \<and> parse_human_response (Str ''Yes please'')
       = Inr \<lparr>action = ''approve'', edited_text = None,
               feedback_message = Some ''Unclear response: Yes please''\<rparr>"
proof -
  have h: "\<not> recognized_form (lower (strip ''Yes please''))" by code_simp
  show ?thesis using h parse_unrecognized_fails_open [OF h] by simp
qed

subsection \<open>C7: the publish node\<close>

text \<open>
  C7. On a state with a draft, \<open>publish_post\<close> calls the connector of the state's
  platform once, with the draft's formatted text. When the call succeeds the update has status
  \<open>PUBLISHED\<close> and the URL of the result; when it raises the update has status
  \<open>FAILED\<close> and the message of the exception. Either way the merged status is terminal, not
  \<open>APPROVED\<close>, and the graph ends after the node.
\<close>

theorem publish_post_outcome:
  assumes "post_content s = Some pc"
  shows "snd (publish_post e s) = [(AgentState.platform s, formatted_text pc)]
    \<and> (case connector_publish e (AgentState.platform s) (formatted_text pc) of
          Inr result \<Rightarrow>
            u_status (fst (publish_post e s)) = Some PUBLISHED
            \<and> u_published_url (fst (publish_post e s)) = Some (Some (pr_url result))
            \<and> u_error_message (fst (publish_post e s)) = None
        | Inl ex \<Rightarrow>
            u_status (fst (publish_post e s)) = Some FAILED
            \<and> u_error_message (fst (publish_post e s)) = Some (Some (str_error ex))
            \<and> u_published_url (fst (publish_post e s)) = None)
    \<and> terminal (status (merge s (fst (publish_post e s))))
    \<and> status (merge s (fst (publish_post e s))) \<noteq> APPROVED
    \<and> next_target N_publish (merge s (fst (publish_post e s))) = Some END
    \<and> r_trace (drive e (Suc k) N_publish resume s) = [N_publish]
    \<and> r_outcome (drive e (Suc k) N_publish resume s) = Finished"
  using assms
  by (simp add: publish_post_def merge_def no_update_def terminal_def next_target_def
        run_node_def Let_def split: sum.splits)

theorem publish_post_outcome_witness:
  "post_content state_pending = Some draft2
   \<and> snd (publish_post env_ok state_pending) = [(TWITTER, ''hi'' @ [newline, newline] @ ''#a #bc'')]
   \<and> u_status (fst (publish_post env_ok state_pending)) = Some PUBLISHED
   \<and> u_published_url (fst (publish_post env_ok state_pending))
       = Some (Some ''https://twitter.com/user/status/42'')
   \<and> snd (publish_post env_down state_pending) = [(TWITTER, ''hi'' @ [newline, newline] @ ''#a #bc'')]
   \<and> u_status (fst (publish_post env_down state_pending)) = Some FAILED
   \<and> u_error_message (fst (publish_post env_down state_pending))
       = Some (Some ''503 Service Unavailable'')"
proof -
  have h: "post_content state_pending = Some draft2" by (simp add: state_pending_def)
  have c1: "connector_publish env_ok TWITTER (formatted_text draft2)
            = Inr \<lparr>pr_success = True, pr_id = ''42'', pr_url = ''https://twitter.com/user/status/42'',
                   pr_platform = ''twitter''\<rparr>" by code_simp
  have c2: "connector_publish env_down TWITTER (formatted_text draft2)
            = Inl (ExternalError ''503 Service Unavailable'')" by code_simp
  have p: "AgentState.platform state_pending = TWITTER"
    by (simp add: state_pending_def state0_def AgentState_init_def)
  have f: "formatted_text draft2 = ''hi'' @ [newline, newline] @ ''#a #bc''" by code_simp
  note t1 = publish_post_outcome [OF h, of env_ok 0 None]
  note t2 = publish_post_outcome [OF h, of env_down 0 None]
  from t1 have a1: "snd (publish_post env_ok state_pending) = [(TWITTER, formatted_text draft2)]"
    by (simp only: p)
  from t2 have a2: "snd (publish_post env_down state_pending) = [(TWITTER, formatted_text draft2)]"
    by (simp only: p)
  from t1 have b1: "u_status (fst (publish_post env_ok state_pending)) = Some PUBLISHED
      \<and> u_published_url (fst (publish_post env_ok state_pending))
          = Some (Some ''https://twitter.com/user/status/42'')"
    by (simp add: p c1)
  from t2 have b2: "u_status (fst (publish_post env_down state_pending)) = Some FAILED
      \<and> u_error_message (fst (publish_post env_down state_pending))
          = Some (Some ''503 Service Unavailable'')"
    by (simp add: p c2)
  show ?thesis using h a1 a2 b1 b2 by (simp add: f)
qed

subsection \<open>C8: the formatted text\<close>

text \<open>
  C8. As stated, including the case of no hashtags, the claim fails: a draft with the body
  \<open>hi\<close> and no hashtags is rendered as \<open>hi\<close>, without the blank line.
\<close>

theorem formatted_text_no_hashtags_counterexample:
  "formatted_text draft0 = ''hi'' \<and> rendered_text_spec draft0 = ''hi'' @ [newline, newline]
   \<and> formatted_text draft0 \<noteq> rendered_text_spec draft0"
  by (simp add: formatted_text_def rendered_text_spec_def draft0_def)

text \<open>
  C8. Amended: for a draft with at least one hashtag the formatted text is the body, a blank
  line, and the hashtags each prefixed with \<open>#\<close> and joined by single spaces; for a draft
  with no hashtag it is the body alone. In both cases \<open>char_count\<close> is the number of
  characters of the formatted text.
\<close>

theorem formatted_text_rendering:
  "formatted_text pc = (if hashtags pc = [] then text' pc else rendered_text_spec pc)
   \<and> char_count pc = int (length (formatted_text pc))
   \<and> char_count pc =
       (if hashtags pc = [] then int (length (text' pc))
        else int (length (text' pc)) + 1 + (\<Sum>t\<leftarrow>hashtags pc. int (length t) + 2))"
  using length_join_hashtags [of "hashtags pc"]
  by (auto simp add: formatted_text_def rendered_text_spec_def char_count_def)

theorem formatted_text_rendering_witness:
  "formatted_text draft2 = ''hi'' @ [newline, newline] @ ''#a #bc'' \<and> char_count draft2 = 10
   \<and> formatted_text draft0 = ''hi'' \<and> char_count draft0 = 2"
  using formatted_text_rendering [of draft2] formatted_text_rendering [of draft0]
  by (simp add: draft2_def draft0_def rendered_text_spec_def)

subsection \<open>C9: the hashtag policy\<close>

text \<open>
  C9. A draft produced by \<open>generate_post\<close> has at most three hashtags on Twitter and at
  most five on LinkedIn. A state whose draft, if any, is within the policy of the state's
  platform stays so over any sequence of node executions and any run of the graph, applying edit
  feedback included; a new thread starts within the policy.
\<close>

theorem hashtags_within_policy:
  "(generate_post e s = Inr u \<longrightarrow>
      (case u_post_content u of
         None \<Rightarrow> False
       | Some pc \<Rightarrow> length (hashtags pc) \<le> hashtag_policy (PostContent.platform pc)))
   \<and> (hashtag_bound s \<longrightarrow> hashtag_bound (fst (exec_nodes s xs)))
   \<and> (hashtag_bound s \<longrightarrow> hashtag_bound (r_state (drive e' k n resume s)))
   \<and> hashtag_bound (AgentState_init tp pf tn ctx tid)"
proof -
  have a: "generate_post e s = Inr u \<longrightarrow>
      (case u_post_content u of
         None \<Rightarrow> False
       | Some pc \<Rightarrow> length (hashtags pc) \<le> hashtag_policy (PostContent.platform pc))"
    using generate_post_update [of e s u] by auto
  have d: "hashtag_bound (AgentState_init tp pf tn ctx tid)"
    by (simp add: hashtag_bound_def AgentState_init_def)
  from a d exec_nodes_hashtag_bound drive_hashtag_bound show ?thesis by blast
qed

theorem hashtags_within_policy_witness:
  "generate_post env_ok state0 = Inr update_ok
   \<and> u_post_content update_ok = Some draft_ok
   \<and> length (hashtags draft_ok) \<le> hashtag_policy (PostContent.platform draft_ok)
   \<and> hashtag_bound state0
   \<and> hashtag_bound (fst (exec_nodes state0 steps0))
   \<and> map_option hashtags (post_content (fst (exec_nodes state0 steps0)))
       = Some [''ai'', ''safety'', ''ml'']"
proof -
  have g: "generate_post env_ok state0 = Inr update_ok" by code_simp
  have p: "u_post_content update_ok = Some draft_ok" by (simp add: update_ok_def no_update_def)
  have b: "hashtag_bound state0" by (simp add: state0_def hashtag_bound_def AgentState_init_def)
  have h: "map_option hashtags (post_content (fst (exec_nodes state0 steps0)))
       = Some [''ai'', ''safety'', ''ml'']" by code_simp
  note t = hashtags_within_policy [of env_ok state0 update_ok steps0 env_ok 0 N_generate None]
  show ?thesis using g p b h t by simp
qed

subsection \<open>C10: feedback absent\<close>

text \<open>
  C10. On a state without human feedback \<open>process_feedback\<close> returns an update that
  only sets the status to \<open>PENDING_APPROVAL\<close>; \<open>should_regenerate\<close> then answers
  \<open>end\<close>, which the graph maps to its end marker, so the run finishes with the status
  \<open>PENDING_APPROVAL\<close>, which is not terminal.
\<close>

theorem process_feedback_without_feedback:
  assumes "human_feedback s = None"
  shows "process_feedback e s = no_update\<lparr>u_status := Some PENDING_APPROVAL\<rparr>
    \<and> merge s (process_feedback e s) = s\<lparr>status := PENDING_APPROVAL\<rparr>
    \<and> should_regenerate (merge s (process_feedback e s)) = ''end''
    \<and> path_map ''end'' = Some END
    \<and> drive e (Suc k) N_process_feedback resume s
        = \<lparr>r_outcome = Finished, r_state = s\<lparr>status := PENDING_APPROVAL\<rparr>, r_cursor = Done,
           r_trace = [N_process_feedback]\<rparr>
    \<and> \<not> terminal (status (r_state (drive e (Suc k) N_process_feedback resume s)))"
  using assms
  by (simp add: process_feedback_def merge_def no_update_def should_regenerate_def path_map_def
        next_target_def run_node_def terminal_def)

theorem process_feedback_without_feedback_witness:
  "human_feedback state0 = None
   \<and> r_outcome (drive env_ok 1 N_process_feedback None state0) = Finished
   \<and> status (r_state (drive env_ok 1 N_process_feedback None state0)) = PENDING_APPROVAL"
proof -
  have h: "human_feedback state0 = None" by (simp add: state0_def AgentState_init_def)
  show ?thesis using h process_feedback_without_feedback [OF h, of env_ok 0 None] by simp
qed

end
